theory Spec2Isabelle
  imports Complex_Main "HOL-Library.Char_ord" "HOL-Library.List_Lexorder"
begin

text \<open>
  A model of the entry service of the gratitude journal: validation of a payload, the
  operations on the embedded table of entries, backup and restore, the date helpers and
  the statistics of a month. Each function has the name it has in the source. What the
  source takes from its environment is an argument here: today's local date, the reading
  of the clock, the identifier generated for a new entry, the random number.
\<close>

section \<open>Strings and arrays of the host language\<close>

text \<open>
  A JavaScript string is modelled as an Isabelle \<open>string\<close>: a list of code units, here
  the code units below 256 (Latin-1). \<open>length\<close> is the \<open>.length\<close> of the source.
\<close>

definition is_space :: "char \<Rightarrow> bool" where
  \<comment> \<open>the white space and line terminators that \<open>String.prototype.trim\<close> removes\<close>
  "is_space c = ((of_char c :: nat) \<in> {9, 10, 11, 12, 13, 32, 160})"

definition trim :: "string \<Rightarrow> string" where
  "trim s = rev (dropWhile is_space (rev (dropWhile is_space s)))"

definition lower_char :: "char \<Rightarrow> char" where
  "lower_char c =
     (let n = (of_char c :: nat)
      in if (65 \<le> n \<and> n \<le> 90) \<or> (192 \<le> n \<and> n \<le> 222 \<and> n \<noteq> 215)
         then char_of (n + 32) else c)"

definition toLowerCase :: "string \<Rightarrow> string" where
  "toLowerCase s = map lower_char s"

fun startsWith :: "string \<Rightarrow> string \<Rightarrow> bool" where
  "startsWith s [] = True"
| "startsWith [] (n # ns) = False"
| "startsWith (c # cs) (n # ns) = (c = n \<and> startsWith cs ns)"

fun str_includes :: "string \<Rightarrow> string \<Rightarrow> bool" where
  "str_includes [] n = (n = [])"
| "str_includes (c # cs) n = (startsWith (c # cs) n \<or> str_includes cs n)"

fun join :: "string \<Rightarrow> string list \<Rightarrow> string" where
  "join sep [] = []"
| "join sep [x] = x"
| "join sep (x # y # ys) = x @ sep @ join sep (y # ys)"

fun insert_by :: "('a \<Rightarrow> 'a \<Rightarrow> int) \<Rightarrow> 'a \<Rightarrow> 'a list \<Rightarrow> 'a list" where
  "insert_by cmp x [] = [x]"
| "insert_by cmp x (y # ys) = (if cmp x y \<le> 0 then x # y # ys else y # insert_by cmp x ys)"

definition js_sort :: "('a \<Rightarrow> 'a \<Rightarrow> int) \<Rightarrow> 'a list \<Rightarrow> 'a list" where
  \<comment> \<open>\<open>Array.prototype.sort\<close> with a comparator: a stable sort (ECMAScript 2019)\<close>
  "js_sort cmp xs = foldr (insert_by cmp) xs []"

definition digit_char :: "nat \<Rightarrow> char" where
  "digit_char n = ''0123456789'' ! (n mod 10)"

function string_of_nat :: "nat \<Rightarrow> string" where
  "string_of_nat n =
     (if n < 10 then [digit_char n] else string_of_nat (n div 10) @ [digit_char (n mod 10)])"
  by pat_completeness auto
termination
  by (relation "measure (\<lambda>n. n)") auto

declare string_of_nat.simps [simp del]

definition string_of_int :: "int \<Rightarrow> string" where
  \<comment> \<open>the decimal text a template literal gives an integer\<close>
  "string_of_int i = (if i < 0 then CHR ''-'' # string_of_nat (nat (- i)) else string_of_nat (nat i))"

definition addLeadingZeros :: "int \<Rightarrow> nat \<Rightarrow> string" where
  \<comment> \<open>date-fns: sign, then the absolute value padded on the left with zeros\<close>
  "addLeadingZeros n targetLength =
     (let digits = string_of_nat (nat \<bar>n\<bar>)
      in (if n < 0 then ''-'' else '''') @ replicate (targetLength - length digits) CHR ''0'' @ digits)"

section \<open>Calendar dates\<close>

text \<open>
  Every \<open>Date\<close> object of the date service is a local midnight, so a date is modelled by
  its calendar fields (year, month 1..12, day). \<open>day_number\<close> counts the days from
  1970-01-01 in the proleptic Gregorian calendar; two local midnights compare as their
  day numbers do, and date-fns' \<open>differenceInDays\<close> of two local midnights is the
  difference of the day numbers.
\<close>

type_synonym civil = "int \<times> int \<times> int"

definition isLeapYearIndex :: "int \<Rightarrow> bool" where
  "isLeapYearIndex year = (year mod 400 = 0 \<or> (year mod 4 = 0 \<and> year mod 100 \<noteq> 0))"

definition days_in_month :: "int \<Rightarrow> int \<Rightarrow> int" where
  "days_in_month year month =
     (if month = 2 then (if isLeapYearIndex year then 29 else 28)
      else if month \<in> {4, 6, 9, 11} then 30 else 31)"

definition day_number :: "civil \<Rightarrow> int" where
  "day_number c =
     (case c of (y, m, d) \<Rightarrow>
        let y' = (if m \<le> 2 then y - 1 else y);
            era = y' div 400;
            yoe = y' - era * 400;
            doy = (153 * (if 2 < m then m - 3 else m + 9) + 2) div 5 + d - 1;
            doe = yoe * 365 + yoe div 4 - yoe div 100 + doy
        in era * 146097 + doe - 719468)"

definition is_digit :: "char \<Rightarrow> bool" where
  "is_digit c = ((of_char c :: nat) \<in> {48..57})"

definition digit_val :: "char \<Rightarrow> int" where
  "digit_val c = int (of_char c) - 48"

definition parseInt :: "string \<Rightarrow> int" where
  \<comment> \<open>on a string of decimal digits\<close>
  "parseInt s = foldl (\<lambda>acc c. acc * 10 + digit_val c) 0 s"

definition matches_ymd :: "string \<Rightarrow> bool" where
  \<comment> \<open>the regular expression \<open>^\\d{4}-\\d{2}-\\d{2}$\<close>\<close>
  "matches_ymd s =
     (length s = 10 \<and> list_all is_digit (take 4 s) \<and> s ! 4 = CHR ''-'' \<and>
      list_all is_digit (take 2 (drop 5 s)) \<and> s ! 7 = CHR ''-'' \<and>
      list_all is_digit (drop 8 s))"

definition validateDate :: "int \<Rightarrow> int \<Rightarrow> int \<Rightarrow> bool" where
  \<comment> \<open>date-fns, with the month counted from 1\<close>
  "validateDate year month date =
     (1 \<le> month \<and> month \<le> 12 \<and> 1 \<le> date \<and> date \<le> days_in_month year month)"

definition parseISO :: "string \<Rightarrow> civil option" where
  \<comment> \<open>date-fns \<open>parseISO\<close> on the calendar-date form \<open>YYYY-MM-DD\<close>, the form the
      application stores; \<open>None\<close> is the Invalid Date. The other ISO 8601 forms that
      date-fns reads (week dates, ordinal dates, times of day) are not modelled and are
      \<open>None\<close> here too.\<close>
  "parseISO s =
     (if matches_ymd s then
        (let year = parseInt (take 4 s); month = parseInt (take 2 (drop 5 s));
             day = parseInt (drop 8 s)
         in if validateDate year month day then Some (year, month, day) else None)
      else None)"

definition parseEntryDate :: "string \<Rightarrow> civil option" where
  \<comment> \<open>\<open>None\<close> is the thrown error\<close>
  "parseEntryDate dateString = parseISO dateString"

definition isValidDateString :: "string \<Rightarrow> bool" where
  "isValidDateString dateString = (parseISO dateString \<noteq> None \<and> matches_ymd dateString)"

definition isFuture :: "civil \<Rightarrow> string \<Rightarrow> bool" where
  \<comment> \<open>the first argument is today's local calendar date\<close>
  "isFuture today dateString =
     (case parseEntryDate dateString of
        None \<Rightarrow> False
      | Some date \<Rightarrow> day_number today < day_number date)"

definition differenceInDays :: "civil \<Rightarrow> civil \<Rightarrow> int" where
  "differenceInDays dateLeft dateRight = day_number dateLeft - day_number dateRight"

definition getDateString :: "civil \<Rightarrow> string" where
  \<comment> \<open>date-fns \<open>format(date, 'yyyy-MM-dd')\<close>\<close>
  "getDateString c =
     (case c of (y, m, d) \<Rightarrow>
        addLeadingZeros (if 0 < y then y else 1 - y) 4 @ ''-'' @
        addLeadingZeros m 2 @ ''-'' @ addLeadingZeros d 2)"

definition getTodayDateString :: "civil \<Rightarrow> string" where
  "getTodayDateString today = getDateString today"

definition getRelativeTime :: "civil \<Rightarrow> string \<Rightarrow> string" where
  "getRelativeTime today dateString =
     (case parseEntryDate dateString of
        None \<Rightarrow> dateString
      | Some date \<Rightarrow>
          (let days = differenceInDays today date in
           if days = 0 then ''Today''
           else if days = 1 then ''Yesterday''
           else if days = - 1 then ''Tomorrow''
           else if days < 0 then ''In '' @ string_of_int \<bar>days\<bar> @ '' days''
           else if days < 7 then string_of_int days @ '' days ago''
           else if days < 30 then
             (let weeks = days div 7
              in if weeks = 1 then ''1 week ago'' else string_of_int weeks @ '' weeks ago'')
           else if days < 365 then
             (let months = days div 30
              in if months = 1 then ''1 month ago'' else string_of_int months @ '' months ago'')
           else
             (let years = days div 365
              in if years = 1 then ''1 year ago'' else string_of_int years @ '' years ago'')))"

section \<open>Entries and validation\<close>

record Entry =
  entry_id :: string
  entry_date :: string
  gratitude_text :: string
  rating :: int
  created_at :: int
  updated_at :: int
  synced_at :: "int option"
  deleted :: "bool option"

text \<open>\<open>Partial<Entry>\<close> as the validator reads it: an absent field is \<open>None\<close>.\<close>

record PartialEntry =
  p_gratitude_text :: "string option"
  p_rating :: "int option"
  p_entry_date :: "string option"

record EntryValidationError =
  field :: string
  message :: string

record ValidationResult =
  valid :: bool
  errors :: "EntryValidationError list"

definition validateEntry :: "civil \<Rightarrow> PartialEntry \<Rightarrow> bool \<Rightarrow> ValidationResult" where
  "validateEntry today data isUpdate =
     (let errors0 = [];
          errors1 =
            (if \<not> isUpdate \<or> p_gratitude_text data \<noteq> None then
               (let text = (case p_gratitude_text data of None \<Rightarrow> '''' | Some t \<Rightarrow> t) in
                if length (trim text) = 0 then
                  errors0 @ [\<lparr>field = ''gratitude_text'', message = ''Gratitude text is required''\<rparr>]
                else if length text > 1000 then
                  errors0 @ [\<lparr>field = ''gratitude_text'',
                             message = ''Gratitude text must be 1000 characters or less''\<rparr>]
                else errors0)
             else errors0);
          errors2 =
            (if \<not> isUpdate \<or> p_rating data \<noteq> None then
               (case p_rating data of
                  None \<Rightarrow> errors1 @ [\<lparr>field = ''rating'', message = ''Rating is required''\<rparr>]
                | Some r \<Rightarrow>
                    if r < 1 \<or> r > 7 then
                      errors1 @ [\<lparr>field = ''rating'', message = ''Rating must be between 1 and 7''\<rparr>]
                    else errors1)
             else errors1);
          errors3 =
            (case p_entry_date data of
               None \<Rightarrow> errors2
             | Some d \<Rightarrow>
                 if \<not> isUpdate \<and> d \<noteq> '''' then
                   (if \<not> isValidDateString d then
                      errors2 @ [\<lparr>field = ''entry_date'',
                                 message = ''Invalid date format (use YYYY-MM-DD)''\<rparr>]
                    else if isFuture today d then
                      errors2 @ [\<lparr>field = ''entry_date'',
                                 message = ''Cannot create entries for future dates''\<rparr>]
                    else errors2)
                 else errors2)
      in \<lparr>valid = (length errors3 = 0), errors = errors3\<rparr>)"

section \<open>The embedded store\<close>

text \<open>
  The table \<open>entries\<close> of the embedded database: primary key \<open>id\<close>, unique index on
  \<open>entry_date\<close>. The engine itself is an external collaborator; it is modelled by its
  rows, by the text its constraint error carries, and by a schedule of faults: each call
  of the engine takes the head of \<open>faults\<close>, and \<open>Some m\<close> there makes the call reject
  with an error of message \<open>m\<close> (an I/O fault, a closed database). With no fault
  scheduled every call runs.
\<close>

datatype js_error = Error string

record db =
  rows :: "Entry list"
  faults :: "string option list"
  constraint_message :: string

definition store_call :: "db \<Rightarrow> string option \<times> db" where
  "store_call s = (case faults s of [] \<Rightarrow> (None, s) | f # fs \<Rightarrow> (f, s\<lparr>faults := fs\<rparr>))"

definition by_id :: "Entry list \<Rightarrow> Entry list" where
  \<comment> \<open>the order of the primary key\<close>
  "by_id es = sort_key entry_id es"

definition by_entry_date :: "Entry list \<Rightarrow> Entry list" where
  \<comment> \<open>the order of the index on \<open>entry_date\<close>: index key, then primary key\<close>
  "by_entry_date es = sort_key entry_date (by_id es)"

definition table_first_by_date :: "string \<Rightarrow> db \<Rightarrow> (js_error + Entry option) \<times> db" where
  \<comment> \<open>\<open>where('entry_date').equals(d).first()\<close>\<close>
  "table_first_by_date d s =
     (case store_call s of
        (Some m, s') \<Rightarrow> (Inl (Error m), s')
      | (None, s') \<Rightarrow> (Inr (find (\<lambda>e. entry_date e = d) (by_entry_date (rows s'))), s'))"

definition table_get :: "string \<Rightarrow> db \<Rightarrow> (js_error + Entry option) \<times> db" where
  "table_get i s =
     (case store_call s of
        (Some m, s') \<Rightarrow> (Inl (Error m), s')
      | (None, s') \<Rightarrow> (Inr (find (\<lambda>e. entry_id e = i) (rows s')), s'))"

definition table_toArray :: "db \<Rightarrow> (js_error + Entry list) \<times> db" where
  "table_toArray s =
     (case store_call s of
        (Some m, s') \<Rightarrow> (Inl (Error m), s')
      | (None, s') \<Rightarrow> (Inr (by_id (rows s')), s'))"

definition table_by_date_reverse :: "db \<Rightarrow> (js_error + Entry list) \<times> db" where
  \<comment> \<open>\<open>orderBy('entry_date').reverse().toArray()\<close>\<close>
  "table_by_date_reverse s =
     (case store_call s of
        (Some m, s') \<Rightarrow> (Inl (Error m), s')
      | (None, s') \<Rightarrow> (Inr (rev (by_entry_date (rows s'))), s'))"

definition table_date_notEqual :: "string \<Rightarrow> db \<Rightarrow> (js_error + Entry list) \<times> db" where
  \<comment> \<open>\<open>where('entry_date').notEqual(d).toArray()\<close>\<close>
  "table_date_notEqual d s =
     (case store_call s of
        (Some m, s') \<Rightarrow> (Inl (Error m), s')
      | (None, s') \<Rightarrow> (Inr (filter (\<lambda>e. entry_date e \<noteq> d) (by_entry_date (rows s'))), s'))"

definition table_date_between :: "string \<Rightarrow> string \<Rightarrow> db \<Rightarrow> (js_error + Entry list) \<times> db" where
  \<comment> \<open>\<open>where('entry_date').between(lower, upper, true, true).toArray()\<close>; keys
      compare code unit by code unit\<close>
  "table_date_between lower upper s =
     (case store_call s of
        (Some m, s') \<Rightarrow> (Inl (Error m), s')
      | (None, s') \<Rightarrow>
          (Inr (filter (\<lambda>e. lower \<le> entry_date e \<and> entry_date e \<le> upper)
                  (by_entry_date (rows s'))), s'))"

definition table_count :: "db \<Rightarrow> (js_error + nat) \<times> db" where
  "table_count s =
     (case store_call s of
        (Some m, s') \<Rightarrow> (Inl (Error m), s')
      | (None, s') \<Rightarrow> (Inr (length (rows s')), s'))"

definition table_add :: "Entry \<Rightarrow> db \<Rightarrow> (js_error + string) \<times> db" where
  \<comment> \<open>rejects when the primary key or the unique index would hold a value twice\<close>
  "table_add e s =
     (case store_call s of
        (Some m, s') \<Rightarrow> (Inl (Error m), s')
      | (None, s') \<Rightarrow>
          if list_ex (\<lambda>x. entry_id x = entry_id e \<or> entry_date x = entry_date e) (rows s')
          then (Inl (Error (constraint_message s')), s')
          else (Inr (entry_id e), s'\<lparr>rows := rows s' @ [e]\<rparr>))"

definition apply_changes :: "Entry \<Rightarrow> Entry \<Rightarrow> Entry" where
  \<comment> \<open>the stored object with every property of the changes written over it\<close>
  "apply_changes stored changes =
     changes\<lparr>synced_at := (case synced_at changes of None \<Rightarrow> synced_at stored | Some v \<Rightarrow> Some v),
             deleted := (case deleted changes of None \<Rightarrow> deleted stored | Some v \<Rightarrow> Some v)\<rparr>"

definition table_update :: "string \<Rightarrow> Entry \<Rightarrow> db \<Rightarrow> (js_error + nat) \<times> db" where
  \<comment> \<open>\<open>update(key, changes)\<close>: the number of rows changed\<close>
  "table_update i changes s =
     (case store_call s of
        (Some m, s') \<Rightarrow> (Inl (Error m), s')
      | (None, s') \<Rightarrow>
          if list_ex (\<lambda>x. entry_id x = i) (rows s') then
            (if list_ex (\<lambda>x. entry_id x \<noteq> i \<and>
                   (entry_id x = entry_id changes \<or> entry_date x = entry_date changes)) (rows s')
             then (Inl (Error (constraint_message s')), s')
             else (Inr 1, s'\<lparr>rows := map (\<lambda>x. if entry_id x = i then apply_changes x changes else x)
                                      (rows s')\<rparr>))
          else (Inr 0, s'))"

definition table_delete :: "string \<Rightarrow> db \<Rightarrow> (js_error + unit) \<times> db" where
  "table_delete i s =
     (case store_call s of
        (Some m, s') \<Rightarrow> (Inl (Error m), s')
      | (None, s') \<Rightarrow> (Inr (), s'\<lparr>rows := filter (\<lambda>x. entry_id x \<noteq> i) (rows s')\<rparr>))"

definition wf_store :: "Entry list \<Rightarrow> bool" where
  \<comment> \<open>what the two unique keys of the table guarantee\<close>
  "wf_store es = (distinct (map entry_id es) \<and> distinct (map entry_date es))"

section \<open>The entry service\<close>

record CreateEntryInput =
  c_entry_date :: string
  c_gratitude_text :: string
  c_rating :: int

record UpdateEntryInput =
  u_gratitude_text :: "string option"
  u_rating :: "int option"

definition partial_of_create :: "CreateEntryInput \<Rightarrow> PartialEntry" where
  "partial_of_create input =
     \<lparr>p_gratitude_text = Some (c_gratitude_text input), p_rating = Some (c_rating input),
      p_entry_date = Some (c_entry_date input)\<rparr>"

definition partial_of_update :: "UpdateEntryInput \<Rightarrow> PartialEntry" where
  "partial_of_update updates =
     \<lparr>p_gratitude_text = u_gratitude_text updates, p_rating = u_rating updates,
      p_entry_date = None\<rparr>"

definition validation_message :: "ValidationResult \<Rightarrow> string" where
  "validation_message validation = join '', '' (map message (errors validation))"

definition getTodayEntry :: "civil \<Rightarrow> db \<Rightarrow> (js_error + Entry option) \<times> db" where
  "getTodayEntry today s =
     (case table_first_by_date (getTodayDateString today) s of
        (Inl _, s') \<Rightarrow> (Inl (Error ''Failed to load today's entry''), s')
      | (Inr entry, s') \<Rightarrow> (Inr entry, s'))"

definition getEntryByDate :: "string \<Rightarrow> db \<Rightarrow> (js_error + Entry option) \<times> db" where
  "getEntryByDate dateString s =
     (case table_first_by_date dateString s of
        (Inl _, s') \<Rightarrow> (Inl (Error (''Failed to load entry for '' @ dateString)), s')
      | (Inr entry, s') \<Rightarrow> (Inr entry, s'))"

definition getEntryById :: "string \<Rightarrow> db \<Rightarrow> (js_error + Entry option) \<times> db" where
  "getEntryById i s =
     (case table_get i s of
        (Inl _, s') \<Rightarrow> (Inl (Error (''Failed to load entry '' @ i)), s')
      | (Inr entry, s') \<Rightarrow> (Inr entry, s'))"

definition getAllEntries :: "db \<Rightarrow> (js_error + Entry list) \<times> db" where
  "getAllEntries s =
     (case table_by_date_reverse s of
        (Inl _, s') \<Rightarrow> (Inl (Error ''Failed to load entries''), s')
      | (Inr entries, s') \<Rightarrow> (Inr entries, s'))"

definition getEntriesInRange ::
  "(string \<Rightarrow> string \<Rightarrow> int) \<Rightarrow> string \<Rightarrow> string \<Rightarrow> db \<Rightarrow> (js_error + Entry list) \<times> db" where
  \<comment> \<open>\<open>localeCompare\<close> is the collation of the host's locale, taken as a parameter\<close>
  "getEntriesInRange localeCompare startDate endDate s =
     (case table_date_between startDate endDate s of
        (Inl _, s') \<Rightarrow> (Inl (Error ''Failed to load entries''), s')
      | (Inr entries, s') \<Rightarrow>
          (Inr (js_sort (\<lambda>a b. localeCompare (entry_date b) (entry_date a)) entries), s'))"

definition createEntry ::
  "civil \<Rightarrow> int \<Rightarrow> string \<Rightarrow> CreateEntryInput \<Rightarrow> db \<Rightarrow> (js_error + Entry) \<times> db" where
  \<comment> \<open>\<open>today\<close> is the local calendar date, \<open>now\<close> the reading of \<open>Date.now()\<close>,
      \<open>uuid\<close> the identifier \<open>uuidv4()\<close> returns\<close>
  "createEntry today now uuid input s =
     (let validation = validateEntry today (partial_of_create input) False in
      if \<not> valid validation then (Inl (Error (validation_message validation)), s)
      else
        case getEntryByDate (c_entry_date input) s of
          (Inl e, s1) \<Rightarrow> (Inl e, s1)
        | (Inr (Some existing), s1) \<Rightarrow>
            (Inl (Error (''An entry already exists for '' @ c_entry_date input @
                         ''. Please edit the existing entry instead.'')), s1)
        | (Inr None, s1) \<Rightarrow>
            (let entry = \<lparr>entry_id = uuid, entry_date = c_entry_date input,
                          gratitude_text = trim (c_gratitude_text input),
                          rating = c_rating input, created_at = now, updated_at = now,
                          synced_at = None, deleted = None\<rparr>
             in case table_add entry s1 of
                  (Inr _, s2) \<Rightarrow> (Inr entry, s2)
                | (Inl (Error m), s2) \<Rightarrow>
                    if str_includes m ''constraint'' then
                      (Inl (Error ''An entry already exists for this date. Please edit the existing entry instead.''), s2)
                    else (Inl (Error ''Failed to save entry''), s2)))"

definition createTodayEntry ::
  "civil \<Rightarrow> int \<Rightarrow> string \<Rightarrow> string \<Rightarrow> int \<Rightarrow> db \<Rightarrow> (js_error + Entry) \<times> db" where
  "createTodayEntry today now uuid text r s =
     createEntry today now uuid
       \<lparr>c_entry_date = getTodayDateString today, c_gratitude_text = text, c_rating = r\<rparr> s"

definition updateEntry ::
  "civil \<Rightarrow> int \<Rightarrow> string \<Rightarrow> UpdateEntryInput \<Rightarrow> db \<Rightarrow> (js_error + Entry) \<times> db" where
  "updateEntry today now i updates s =
     (let validation = validateEntry today (partial_of_update updates) True in
      if \<not> valid validation then (Inl (Error (validation_message validation)), s)
      else
        case getEntryById i s of
          (Inl e, s1) \<Rightarrow> (Inl e, s1)
        | (Inr None, s1) \<Rightarrow> (Inl (Error ''Entry not found''), s1)
        | (Inr (Some existing), s1) \<Rightarrow>
            (let updatedEntry =
                   existing\<lparr>rating := (case u_rating updates of None \<Rightarrow> rating existing | Some r \<Rightarrow> r),
                            gratitude_text :=
                              (case u_gratitude_text updates of
                                 None \<Rightarrow> gratitude_text existing | Some t \<Rightarrow> trim t),
                            updated_at := now\<rparr>
             in case table_update i updatedEntry s1 of
                  (Inr _, s2) \<Rightarrow> (Inr updatedEntry, s2)
                | (Inl _, s2) \<Rightarrow> (Inl (Error ''Failed to update entry''), s2)))"

definition deleteEntry :: "string \<Rightarrow> db \<Rightarrow> (js_error + unit) \<times> db" where
  "deleteEntry i s =
     (case getEntryById i s of
        (Inl e, s1) \<Rightarrow> (Inl e, s1)
      | (Inr None, s1) \<Rightarrow> (Inl (Error ''Entry not found''), s1)
      | (Inr (Some existing), s1) \<Rightarrow>
          (case table_delete i s1 of
             (Inr _, s2) \<Rightarrow> (Inr (), s2)
           | (Inl _, s2) \<Rightarrow> (Inl (Error ''Failed to delete entry''), s2)))"

definition getEntryCount :: "db \<Rightarrow> (js_error + nat) \<times> db" where
  "getEntryCount s =
     (case table_count s of
        (Inl _, s') \<Rightarrow> (Inr 0, s')
      | (Inr n, s') \<Rightarrow> (Inr n, s'))"

definition getRandomEntry :: "civil \<Rightarrow> rat \<Rightarrow> db \<Rightarrow> (js_error + Entry option) \<times> db" where
  \<comment> \<open>\<open>random\<close> is the value of \<open>Math.random()\<close>, in \<open>[0, 1)\<close>\<close>
  "getRandomEntry today random s =
     (case table_date_notEqual (getTodayDateString today) s of
        (Inl _, s') \<Rightarrow> (Inr None, s')
      | (Inr entries, s') \<Rightarrow>
          if length entries = 0 then (Inr None, s')
          else
            (let randomIndex = nat \<lfloor>random * of_nat (length entries)\<rfloor>
             in (Inr (if randomIndex < length entries then Some (entries ! randomIndex) else None), s')))"

definition searchEntries :: "string \<Rightarrow> db \<Rightarrow> (js_error + Entry list) \<times> db" where
  "searchEntries query s =
     (let normalizedQuery = trim (toLowerCase query) in
      if normalizedQuery = '''' then (Inr [], s)
      else
        case getAllEntries s of
          (Inl _, s') \<Rightarrow> (Inr [], s')
        | (Inr allEntries, s') \<Rightarrow>
            (Inr (filter (\<lambda>entry. str_includes (toLowerCase (gratitude_text entry)) normalizedQuery)
                    allEntries), s'))"

section \<open>Backup and restore\<close>

text \<open>
  The backup is JSON text. It is modelled by what \<open>JSON.parse\<close> makes of it: a list of
  entries, some other JSON value, or a syntax error with its message. \<open>JSON.stringify\<close>
  of a list of entries parses back to that list.
\<close>

datatype json = Json_entries "Entry list" | Json_other | Json_malformed string

definition exportDatabase :: "db \<Rightarrow> (js_error + json) \<times> db" where
  "exportDatabase s =
     (case table_toArray s of
        (Inl e, s') \<Rightarrow> (Inl e, s')
      | (Inr entries, s') \<Rightarrow> (Inr (Json_entries entries), s'))"

definition initDatabase :: "db \<Rightarrow> (js_error + unit) \<times> db" where
  \<comment> \<open>\<open>db.open()\<close>; the error is thrown on as it is\<close>
  "initDatabase s =
     (case store_call s of
        (Some m, s') \<Rightarrow> (Inl (Error m), s')
      | (None, s') \<Rightarrow> (Inr (), s'))"

definition clearDatabase :: "db \<Rightarrow> (js_error + unit) \<times> db" where
  \<comment> \<open>\<open>db.entries.clear()\<close>; the error is thrown on as it is\<close>
  "clearDatabase s =
     (case store_call s of
        (Some m, s') \<Rightarrow> (Inl (Error m), s')
      | (None, s') \<Rightarrow> (Inr (), s'\<lparr>rows := []\<rparr>))"

fun import_loop :: "Entry list \<Rightarrow> nat \<Rightarrow> db \<Rightarrow> nat \<times> db" where
  "import_loop [] imported s = (imported, s)"
| "import_loop (entry # rest) imported s =
     (case table_add entry s of
        (Inr _, s') \<Rightarrow> import_loop rest (imported + 1) s'
      | (Inl _, s') \<Rightarrow> import_loop rest imported s')"

definition importDatabase :: "json \<Rightarrow> db \<Rightarrow> (js_error + nat) \<times> db" where
  "importDatabase jsonData s =
     (case jsonData of
        Json_malformed m \<Rightarrow> (Inl (Error m), s)
      | Json_other \<Rightarrow> (Inl (Error ''Invalid import data: expected array of entries''), s)
      | Json_entries entries \<Rightarrow>
          (case import_loop entries 0 s of (imported, s') \<Rightarrow> (Inr imported, s')))"

section \<open>Month statistics\<close>

definition js_month :: "int \<Rightarrow> int \<Rightarrow> int \<times> int" where
  \<comment> \<open>the year and the month (1..12) of \<open>new Date(year, monthIndex, day)\<close> for a day
      inside the month: years 0..99 mean 1900..1999, and the month index carries into
      the year\<close>
  "js_month year monthIndex =
     (let y = (if 0 \<le> year \<and> year \<le> 99 then 1900 + year else year);
          total = y * 12 + monthIndex
      in (total div 12, total mod 12 + 1))"

definition valid_date :: "civil \<Rightarrow> bool" where
  \<comment> \<open>the midnight of the day is a time value \<open>Date\<close> can hold: at most 100 000 000
      days from 1970-01-01 (taken in UTC; a zone's offset moves the two boundary days)\<close>
  "valid_date c = (\<bar>day_number c\<bar> \<le> 100000000)"

definition getDatesInMonth :: "int \<Rightarrow> int \<Rightarrow> string list option" where
  \<comment> \<open>\<open>None\<close> is the \<open>RangeError\<close> that \<open>format\<close> throws on an Invalid Date. When the
      last day of the month is beyond the range of \<open>Date\<close> its day count is \<open>NaN\<close> and
      the loop does not run; when the last day is in range and an earlier day is not,
      formatting that day throws.\<close>
  "getDatesInMonth year month =
     (case js_month year (month - 1) of
        (y, m) \<Rightarrow>
          let daysInMonth = days_in_month y m in
          if \<not> valid_date (y, m, daysInMonth) then Some []
          else if list_all (\<lambda>day. valid_date (y, m, day)) [1..daysInMonth]
          then Some (map (\<lambda>day. getDateString (y, m, day)) [1..daysInMonth])
          else None)"

definition js_round :: "rat \<Rightarrow> int" where
  "js_round x = \<lfloor>x + 1 / 2\<rfloor>"

record BestDay =
  bd_date :: string
  bd_rating :: int

record MonthStats =
  totalEntries :: nat
  averageRating :: "rat option"
  bestDay :: "BestDay option"
  completionRate :: int

definition calculateMonthStats :: "Entry list \<Rightarrow> int \<Rightarrow> int \<Rightarrow> MonthStats option" where
  \<comment> \<open>\<open>None\<close> is the error thrown by \<open>getDatesInMonth\<close>, which nothing catches\<close>
  "calculateMonthStats entries year month =
     (case getDatesInMonth year month of
        None \<Rightarrow> None
      | Some datesInMonth \<Rightarrow>
          (let totalDaysInMonth = length datesInMonth;
               monthEntries = filter (\<lambda>entry. entry_date entry \<in> set datesInMonth) entries;
               totalEntries = length monthEntries;
               averageRating =
                 (if totalEntries > 0 then
                    Some (of_int (foldl (\<lambda>sum entry. sum + rating entry) 0 monthEntries) /
                          of_nat totalEntries)
                  else None);
               bestDay =
                 (if totalEntries > 0 then
                    (case js_sort (\<lambda>a b. rating b - rating a) monthEntries of
                       [] \<Rightarrow> None
                     | best # _ \<Rightarrow> Some \<lparr>bd_date = entry_date best, bd_rating = rating best\<rparr>)
                  else None);
               completionRate =
                 (if totalDaysInMonth > 0 then
                    js_round (of_nat totalEntries / of_nat totalDaysInMonth * 100)
                  else 0)
           in Some \<lparr>totalEntries = totalEntries, averageRating = averageRating, bestDay = bestDay,
                    completionRate = completionRate\<rparr>))"

section \<open>Sequences of operations\<close>

datatype operation =
    Create civil int string CreateEntryInput
  | Update civil int string UpdateEntryInput
  | Delete string

fun apply_operation :: "operation \<Rightarrow> db \<Rightarrow> db" where
  "apply_operation (Create today now uuid input) s = snd (createEntry today now uuid input s)"
| "apply_operation (Update today now i updates) s = snd (updateEntry today now i updates s)"
| "apply_operation (Delete i) s = snd (deleteEntry i s)"

fun run :: "operation list \<Rightarrow> db \<Rightarrow> db" where
  "run [] s = s"
| "run (operation # rest) s = run rest (apply_operation operation s)"

fun clock_readings :: "operation list \<Rightarrow> int list" where
  \<comment> \<open>the values \<open>Date.now()\<close> returned, in the order of the calls\<close>
  "clock_readings [] = []"
| "clock_readings (Create today now uuid input # rest) = now # clock_readings rest"
| "clock_readings (Update today now i updates # rest) = now # clock_readings rest"
| "clock_readings (Delete i # rest) = clock_readings rest"

section \<open>Notions used to state the properties\<close>

definition dated_in_month :: "int \<Rightarrow> int \<Rightarrow> string \<Rightarrow> bool" where
  \<comment> \<open>the string is a well-formed \<open>YYYY-MM-DD\<close> date of a real day of that year and
      month; this does not refer to \<open>getDatesInMonth\<close>\<close>
  "dated_in_month year month dateString =
     (case parseISO dateString of
        None \<Rightarrow> False
      | Some (y, m, d) \<Rightarrow> y = year \<and> m = month)"

definition entries_in_month :: "Entry list \<Rightarrow> int \<Rightarrow> int \<Rightarrow> Entry list" where
  \<comment> \<open>the entries dated in the month, in the order of the input\<close>
  "entries_in_month entries year month =
     filter (\<lambda>entry. dated_in_month year month (entry_date entry)) entries"

definition sample_entry :: "string \<Rightarrow> string \<Rightarrow> int \<Rightarrow> Entry" where
  "sample_entry i d r =
     \<lparr>entry_id = i, entry_date = d, gratitude_text = ''sun'', rating = r, created_at = 10,
      updated_at = 10, synced_at = None, deleted = None\<rparr>"

definition sample_db :: "Entry list \<Rightarrow> db" where
  "sample_db es = \<lparr>rows = es, faults = [], constraint_message = ''Key already exists''\<rparr>"

definition timestamps_ok :: "int \<Rightarrow> db \<Rightarrow> bool" where
  \<comment> \<open>no record is updated before it is created, nor created after the time \<open>t\<close>\<close>
  "timestamps_ok t s = (\<forall>e\<in>set (rows s). created_at e \<le> updated_at e \<and> created_at e \<le> t)"


section \<open>Validation of a create payload\<close>

lemma is_space_blank: "is_space CHR '' ''"
  by (simp add: is_space_def)

lemma not_is_space_a: "\<not> is_space CHR ''a''"
  by (simp add: is_space_def)

lemma trim_trailing_blanks: "trim (CHR ''a'' # replicate n CHR '' '') = ''a''"
proof -
  have "rev (CHR ''a'' # replicate n CHR '' '') = replicate n CHR '' '' @ ''a''"
    by simp
  moreover have "dropWhile is_space (replicate n CHR '' '' @ ''a'') = ''a''"
    by (induction n) (simp_all add: is_space_blank not_is_space_a)
  ultimately show ?thesis
    by (simp add: trim_def not_is_space_a)
qed

lemma parse_june_first: "parseISO ''2024-06-01'' = Some (2024, 6, 1)"
  by code_simp

lemma june_first_not_future: "day_number (2024, 6, 1) \<le> day_number (2024, 6, 10)"
  by code_simp

text \<open>
  Claim C2, as the validator has it. A create payload whose gratitude text has at least
  one character after trimming and at most 1000 characters before trimming, whose rating
  lies in 1..7, and whose entry date, if supplied, is a well-formed \<open>YYYY-MM-DD\<close>
  calendar date not after today, is valid, with no errors. The bound of 1000 is on the
  text as typed, not on the trimmed text.
\<close>

theorem validateEntry_accepts_create:
  assumes "1 \<le> length (trim body)" and "length body \<le> 1000"
    and "1 \<le> r" and "r \<le> 7"
    and "case dopt of None \<Rightarrow> True
         | Some d \<Rightarrow> \<exists>c. parseISO d = Some c \<and> day_number c \<le> day_number today"
  shows "validateEntry today \<lparr>p_gratitude_text = Some body, p_rating = Some r, p_entry_date = dopt\<rparr> False
         = \<lparr>valid = True, errors = []\<rparr>"
  using assms
  by (auto simp: validateEntry_def isValidDateString_def isFuture_def parseEntryDate_def parseISO_def
      split: option.splits if_splits)

theorem validateEntry_accepts_create_witness:
  "validateEntry (2024, 6, 10)
     \<lparr>p_gratitude_text = Some ''a'', p_rating = Some 3, p_entry_date = Some ''2024-06-01''\<rparr> False
   = \<lparr>valid = True, errors = []\<rparr>"
proof -
  have t: "trim ''a'' = ''a''" using trim_trailing_blanks [of 0] by simp
  show ?thesis
    using validateEntry_accepts_create [where body = "''a''" and r = 3 and dopt = "Some ''2024-06-01''"
        and today = "(2024, 6, 10)"]
    by (simp add: t parse_june_first june_first_not_future)
qed

theorem validateEntry_trimmed_length_counterexample:
  "length (trim (CHR ''a'' # replicate 1000 CHR '' '')) = 1 \<and>
   parseISO ''2024-06-01'' = Some (2024, 6, 1) \<and>
   day_number (2024, 6, 1) \<le> day_number (2024, 6, 10) \<and>
   validateEntry (2024, 6, 10)
     \<lparr>p_gratitude_text = Some (CHR ''a'' # replicate 1000 CHR '' ''), p_rating = Some 3,
      p_entry_date = Some ''2024-06-01''\<rparr> False
   = \<lparr>valid = False,
      errors = [\<lparr>field = ''gratitude_text'',
                 message = ''Gratitude text must be 1000 characters or less''\<rparr>]\<rparr>"
proof -
  have v: "isValidDateString ''2024-06-01''"
    using parse_june_first by (simp add: isValidDateString_def parseISO_def split: if_splits)
  have f: "\<not> isFuture (2024, 6, 10) ''2024-06-01''"
    using june_first_not_future
    by (simp add: isFuture_def parseEntryDate_def parse_june_first not_less)
  show ?thesis
    by (simp add: validateEntry_def trim_trailing_blanks parse_june_first june_first_not_future v f)
qed

section \<open>Relative time labels\<close>

text \<open>
  Claim C9. For a well-formed date \<open>d\<close> days before today: one day gives
  \<open>Yesterday\<close>, eight days give \<open>1 week ago\<close>; for \<open>0 < d < 7\<close> the label counts days
  (\<open>Yesterday\<close> for one day, \<open>d days ago\<close> otherwise), for \<open>7 \<le> d < 30\<close> it counts weeks,
  for \<open>30 \<le> d < 365\<close> months of 30 days, and from 365 days on years of 365 days.
\<close>

theorem getRelativeTime_labels:
  assumes "parseEntryDate dateString = Some date"
    and "differenceInDays today date = d"
  shows "(d = 1 \<longrightarrow> getRelativeTime today dateString = ''Yesterday'') \<and>
         (d = 8 \<longrightarrow> getRelativeTime today dateString = ''1 week ago'') \<and>
         (0 < d \<and> d < 7 \<longrightarrow>
            getRelativeTime today dateString =
              (if d = 1 then ''Yesterday'' else string_of_int d @ '' days ago'')) \<and>
         (7 \<le> d \<and> d < 30 \<longrightarrow>
            getRelativeTime today dateString =
              (if d div 7 = 1 then ''1 week ago'' else string_of_int (d div 7) @ '' weeks ago'')) \<and>
         (30 \<le> d \<and> d < 365 \<longrightarrow>
            getRelativeTime today dateString =
              (if d div 30 = 1 then ''1 month ago'' else string_of_int (d div 30) @ '' months ago'')) \<and>
         (365 \<le> d \<longrightarrow>
            getRelativeTime today dateString =
              (if d div 365 = 1 then ''1 year ago'' else string_of_int (d div 365) @ '' years ago''))"
  using assms by (simp add: getRelativeTime_def Let_def)

lemma parse_samples:
  "parseEntryDate ''2024-06-09'' = Some (2024, 6, 9)"
  "parseEntryDate ''2024-06-02'' = Some (2024, 6, 2)"
  "parseEntryDate ''2024-06-05'' = Some (2024, 6, 5)"
  "parseEntryDate ''2024-05-01'' = Some (2024, 5, 1)"
  "parseEntryDate ''2022-06-10'' = Some (2022, 6, 10)"
  by code_simp+

lemma difference_samples:
  "differenceInDays (2024, 6, 10) (2024, 6, 9) = 1"
  "differenceInDays (2024, 6, 10) (2024, 6, 2) = 8"
  "differenceInDays (2024, 6, 10) (2024, 6, 5) = 5"
  "differenceInDays (2024, 6, 10) (2024, 5, 1) = 40"
  "differenceInDays (2024, 6, 10) (2022, 6, 10) = 731"
  by code_simp+

lemma string_of_int_samples:
  "string_of_int 5 = ''5''" "string_of_int 2 = ''2''"
  by code_simp+

theorem getRelativeTime_labels_witness:
  "getRelativeTime (2024, 6, 10) ''2024-06-09'' = ''Yesterday'' \<and>
   getRelativeTime (2024, 6, 10) ''2024-06-02'' = ''1 week ago'' \<and>
   getRelativeTime (2024, 6, 10) ''2024-06-05'' = ''5 days ago'' \<and>
   getRelativeTime (2024, 6, 10) ''2024-05-01'' = ''1 month ago'' \<and>
   getRelativeTime (2024, 6, 10) ''2022-06-10'' = ''2 years ago''"
  using getRelativeTime_labels [OF parse_samples(1) difference_samples(1)]
    getRelativeTime_labels [OF parse_samples(2) difference_samples(2)]
    getRelativeTime_labels [OF parse_samples(3) difference_samples(3)]
    getRelativeTime_labels [OF parse_samples(4) difference_samples(4)]
    getRelativeTime_labels [OF parse_samples(5) difference_samples(5)]
  by (simp add: string_of_int_samples)

section \<open>Dates and their strings\<close>

lemma digit_code_cases:
  "48 \<le> n \<Longrightarrow> n \<le> 57 \<Longrightarrow>
   n \<in> {48, 49, 50, 51, 52, 53, 54, 55, 56, 57 :: nat}"
  by simp arith

lemma char_of_digit_codes:
  "char_of (48::nat) = CHR ''0''" "char_of (49::nat) = CHR ''1''" "char_of (50::nat) = CHR ''2''"
  "char_of (51::nat) = CHR ''3''" "char_of (52::nat) = CHR ''4''" "char_of (53::nat) = CHR ''5''"
  "char_of (54::nat) = CHR ''6''" "char_of (55::nat) = CHR ''7''" "char_of (56::nat) = CHR ''8''"
  "char_of (57::nat) = CHR ''9''"
  by code_simp+

lemma is_digit_iff: "is_digit c \<longleftrightarrow> c \<in> set ''0123456789''"
proof
  assume "is_digit c"
  then have "(of_char c :: nat) \<in> {48, 49, 50, 51, 52, 53, 54, 55, 56, 57}"
    by (intro digit_code_cases) (simp_all add: is_digit_def)
  then have "char_of (of_char c :: nat) \<in> char_of ` {48, 49, 50, 51, 52, 53, 54, 55, 56, 57 :: nat}"
    by (rule imageI)
  then show "c \<in> set ''0123456789''" by (simp add: char_of_digit_codes)
next
  assume "c \<in> set ''0123456789''"
  then show "is_digit c" by (auto simp: is_digit_def)
qed

lemma digit_char_digit_val: "is_digit c \<Longrightarrow> digit_char (nat (digit_val c)) = c"
  by (auto simp: is_digit_iff digit_val_def digit_char_def)

lemma digit_val_range: "is_digit c \<Longrightarrow> 0 \<le> digit_val c \<and> digit_val c \<le> 9"
  by (auto simp: is_digit_iff digit_val_def)

lemma lt_10_cases: "k < (10::nat) \<Longrightarrow> k \<in> {0, 1, 2, 3, 4, 5, 6, 7, 8, 9}"
  by auto

lemma digit_val_digit_char: "k < 10 \<Longrightarrow> digit_val (digit_char k) = int k"
  by (drule lt_10_cases) (auto simp: digit_val_def digit_char_def)

lemma is_digit_digit_char: "k < 10 \<Longrightarrow> is_digit (digit_char k)"
  by (drule lt_10_cases) (auto simp: is_digit_def digit_char_def)

lemma parseInt_snoc: "parseInt (xs @ [c]) = parseInt xs * 10 + digit_val c"
  by (simp add: parseInt_def)

lemma parseInt_zeros: "parseInt (replicate k CHR ''0'' @ ds) = parseInt ds"
proof -
  have "foldl (\<lambda>acc c. acc * 10 + digit_val c) 0 (replicate k CHR ''0'') = 0"
    by (induction k) (simp_all add: digit_val_def)
  then show ?thesis by (simp add: parseInt_def)
qed

lemma string_of_nat_digits: "list_all is_digit (string_of_nat n)"
proof (induction n rule: string_of_nat.induct)
  case (1 n)
  show ?case
  proof (cases "n < 10")
    case True
    then show ?thesis by (subst string_of_nat.simps) (simp add: is_digit_digit_char)
  next
    case False
    with 1 show ?thesis
      by (subst string_of_nat.simps) (simp add: is_digit_digit_char)
  qed
qed

lemma parseInt_string_of_nat: "parseInt (string_of_nat n) = int n"
proof (induction n rule: string_of_nat.induct)
  case (1 n)
  show ?case
  proof (cases "n < 10")
    case True
    then show ?thesis
      by (subst string_of_nat.simps) (simp add: parseInt_def digit_val_digit_char)
  next
    case False
    with 1 have "parseInt (string_of_nat (n div 10)) = int (n div 10)" by simp
    moreover have "int (n div 10) * 10 + int (n mod 10) = int n" by presburger
    ultimately show ?thesis
      using False by (subst string_of_nat.simps) (simp add: parseInt_snoc digit_val_digit_char)
  qed
qed

lemma length_string_of_nat: "0 < k \<Longrightarrow> n < 10 ^ k \<Longrightarrow> length (string_of_nat n) \<le> k"
proof (induction n arbitrary: k rule: string_of_nat.induct)
  case (1 n)
  show ?case
  proof (cases "n < 10")
    case True
    with 1(2) show ?thesis by (subst string_of_nat.simps) simp
  next
    case False
    from 1(2,3) False have "k \<noteq> 0" and "k \<noteq> 1" by auto
    then obtain j where k: "k = Suc j" and j: "0 < j"
      by (cases k) auto
    with 1(3) have "n div 10 < 10 ^ j" by (simp add: less_mult_imp_div_less mult.commute)
    with 1(1) [OF False j] have "length (string_of_nat (n div 10)) \<le> j" by simp
    with False k show ?thesis by (subst string_of_nat.simps) simp
  qed
qed

lemma addLeadingZeros_props:
  assumes "0 \<le> n" and "n < 10 ^ k" and "0 < k"
  shows "length (addLeadingZeros n k) = k"
    and "list_all is_digit (addLeadingZeros n k)"
    and "parseInt (addLeadingZeros n k) = n"
proof -
  have "nat n < 10 ^ k" using assms(1,2) by (simp add: nat_less_iff)
  with assms(3) have l: "length (string_of_nat (nat n)) \<le> k" by (rule length_string_of_nat)
  have abs: "\<bar>n\<bar> = n" using assms(1) by simp
  show "length (addLeadingZeros n k) = k"
    using l assms(1) by (simp add: addLeadingZeros_def Let_def abs)
  have z: "list_all is_digit (replicate j CHR ''0'')" for j
    by (simp add: list_all_iff is_digit_def)
  show "list_all is_digit (addLeadingZeros n k)"
    using assms(1) string_of_nat_digits [of "nat n"] z
    by (simp add: addLeadingZeros_def Let_def abs)
  show "parseInt (addLeadingZeros n k) = n"
    using assms(1) by (simp add: addLeadingZeros_def Let_def abs parseInt_zeros parseInt_string_of_nat)
qed

lemma string_of_nat_small: "n < 10 \<Longrightarrow> string_of_nat n = [digit_char n]"
  by (subst string_of_nat.simps) simp

lemma string_of_nat_step:
  "0 < v \<Longrightarrow> b < 10 \<Longrightarrow> string_of_nat (v * 10 + b) = string_of_nat v @ [digit_char b]"
  by (subst string_of_nat.simps) simp

lemma parseInt_nonneg: "list_all is_digit ds \<Longrightarrow> 0 \<le> parseInt ds"
proof (induction ds rule: rev_induct)
  case Nil
  then show ?case by (simp add: parseInt_def)
next
  case (snoc c ds)
  then show ?case using digit_val_range [of c] by (simp add: parseInt_snoc)
qed

lemma unpad:
  "ds \<noteq> [] \<Longrightarrow> list_all is_digit ds \<Longrightarrow>
   length (string_of_nat (nat (parseInt ds))) \<le> length ds \<and>
   replicate (length ds - length (string_of_nat (nat (parseInt ds)))) CHR ''0''
     @ string_of_nat (nat (parseInt ds)) = ds"
proof (induction ds rule: rev_induct)
  case Nil
  then show ?case by simp
next
  case (snoc c ds)
  from snoc.prems have dc: "is_digit c" and dds: "list_all is_digit ds" by simp_all
  let ?b = "nat (digit_val c)"
  have b: "?b < 10" and bc: "digit_char ?b = c"
    using digit_val_range [OF dc] digit_char_digit_val [OF dc] by auto
  let ?v = "nat (parseInt ds)"
  have v: "nat (parseInt (ds @ [c])) = ?v * 10 + ?b"
    using parseInt_nonneg [OF dds] digit_val_range [OF dc]
    by (simp add: parseInt_snoc nat_add_distrib nat_mult_distrib)
  show ?case
  proof (cases "ds = []")
    case True
    then have "?v = 0" by (simp add: parseInt_def)
    with True v b bc show ?thesis by (simp add: string_of_nat_small)
  next
    case False
    from snoc.IH [OF False dds]
    have l: "length (string_of_nat ?v) \<le> length ds"
      and e: "replicate (length ds - length (string_of_nat ?v)) CHR ''0'' @ string_of_nat ?v = ds"
      by simp_all
    show ?thesis
    proof (cases "?v = 0")
      case True
      with e have "replicate (length ds - 1) CHR ''0'' @ ''0'' = ds"
        by (simp add: string_of_nat_small digit_char_def)
      then have "replicate (Suc (length ds - 1)) CHR ''0'' = ds"
        by (simp add: replicate_append_same)
      with False have z: "replicate (length ds) CHR ''0'' = ds" by (cases ds) auto
      from True v b have "string_of_nat (nat (parseInt (ds @ [c]))) = [c]"
        using bc by (simp add: string_of_nat_small)
      with z show ?thesis by simp
    next
      case False
      then have "string_of_nat (nat (parseInt (ds @ [c]))) = string_of_nat ?v @ [c]"
        using v b bc by (simp add: string_of_nat_step)
      with l e show ?thesis by (simp add: Suc_diff_le)
    qed
  qed
qed

lemma addLeadingZeros_parseInt:
  assumes "list_all is_digit ds" and "length ds = k" and "0 < k"
  shows "addLeadingZeros (parseInt ds) k = ds"
proof -
  have ne: "ds \<noteq> []" using assms(2,3) by auto
  have "\<bar>parseInt ds\<bar> = parseInt ds" and "\<not> parseInt ds < 0"
    using parseInt_nonneg [OF assms(1)] by simp_all
  with unpad [OF ne assms(1)] assms(2) show ?thesis
    by (simp add: addLeadingZeros_def Let_def)
qed

lemma days_in_month_le: "days_in_month y m \<le> 31"
  by (simp add: days_in_month_def)

lemma parseISO_getDateString:
  assumes "1 \<le> y" and "y \<le> 9999" and "1 \<le> m" and "m \<le> 12"
    and "1 \<le> d" and "d \<le> days_in_month y m"
  shows "parseISO (getDateString (y, m, d)) = Some (y, m, d)"
proof -
  let ?Y = "addLeadingZeros y 4" and ?M = "addLeadingZeros m 2" and ?D = "addLeadingZeros d 2"
  have d31: "d \<le> 31" using assms(6) days_in_month_le [of y m] by simp
  have Y: "length ?Y = 4" "list_all is_digit ?Y" "parseInt ?Y = y"
    using addLeadingZeros_props [of y 4] assms(1,2) by simp_all
  have M: "length ?M = 2" "list_all is_digit ?M" "parseInt ?M = m"
    using addLeadingZeros_props [of m 2] assms(3,4) by simp_all
  have D: "length ?D = 2" "list_all is_digit ?D" "parseInt ?D = d"
    using addLeadingZeros_props [of d 2] assms(5) d31 by simp_all
  have g: "getDateString (y, m, d) = ?Y @ ''-'' @ ?M @ ''-'' @ ?D"
    using assms(1) by (simp add: getDateString_def)
  have t4: "take 4 (?Y @ ''-'' @ ?M @ ''-'' @ ?D) = ?Y" using Y(1) by simp
  have d5: "drop 5 (?Y @ ''-'' @ ?M @ ''-'' @ ?D) = ?M @ ''-'' @ ?D" using Y(1) by simp
  have d8: "drop 8 (?Y @ ''-'' @ ?M @ ''-'' @ ?D) = ?D" using Y(1) M(1) by simp
  have n4: "(?Y @ ''-'' @ ?M @ ''-'' @ ?D) ! 4 = CHR ''-''"
    using Y(1) by (simp add: nth_append)
  have n7: "(?Y @ ''-'' @ ?M @ ''-'' @ ?D) ! 7 = CHR ''-''"
    using Y(1) M(1) by (simp add: nth_append)
  have t2: "take 2 (?M @ ''-'' @ ?D) = ?M" using M(1) by simp
  have len: "length (?Y @ ''-'' @ ?M @ ''-'' @ ?D) = 10" using Y(1) M(1) D(1) by simp
  have m: "matches_ymd (?Y @ ''-'' @ ?M @ ''-'' @ ?D)"
    unfolding matches_ymd_def t4 d5 d8 n4 n7 t2 len using Y(2) M(2) D(2) by simp
  show ?thesis
    unfolding g parseISO_def Let_def t4 d5 d8 t2 using m assms Y(3) M(3) D(3)
    by (simp add: validateDate_def)
qed

lemma getDateString_parseISO:
  assumes "parseISO s = Some (y, m, d)" and "1 \<le> y"
  shows "s = getDateString (y, m, d)"
proof -
  from assms(1) have ms: "matches_ymd s"
    and y: "y = parseInt (take 4 s)" and m: "m = parseInt (take 2 (drop 5 s))"
    and d: "d = parseInt (drop 8 s)"
    by (auto simp: parseISO_def Let_def split: if_splits)
  from ms have len: "length s = 10" and dy: "list_all is_digit (take 4 s)"
    and dm: "list_all is_digit (take 2 (drop 5 s))" and dd: "list_all is_digit (drop 8 s)"
    and h4: "s ! 4 = CHR ''-''" and h7: "s ! 7 = CHR ''-''"
    by (simp_all add: matches_ymd_def)
  have Y: "addLeadingZeros y 4 = take 4 s"
    unfolding y using dy len by (intro addLeadingZeros_parseInt) simp_all
  have M: "addLeadingZeros m 2 = take 2 (drop 5 s)"
    unfolding m using dm len by (intro addLeadingZeros_parseInt) simp_all
  have D: "addLeadingZeros d 2 = drop 8 s"
    unfolding d using dd len by (intro addLeadingZeros_parseInt) simp_all
  have "s = take 4 s @ drop 4 s" by simp
  also have "drop 4 s = s ! 4 # drop 5 s"
    using len Cons_nth_drop_Suc [of 4 s] by simp
  also have "drop 5 s = take 2 (drop 5 s) @ drop 7 s"
    using append_take_drop_id [of 2 "drop 5 s"] by simp
  also have "drop 7 s = s ! 7 # drop 8 s"
    using len Cons_nth_drop_Suc [of 7 s] by simp
  finally have "s = take 4 s @ ''-'' @ take 2 (drop 5 s) @ ''-'' @ drop 8 s"
    using h4 h7 by simp
  then show ?thesis
    using assms(2) Y M D by (simp add: getDateString_def)
qed

section \<open>The best day of a month\<close>

lemma js_sort_Cons: "js_sort cmp (x # xs) = insert_by cmp x (js_sort cmp xs)"
  by (simp add: js_sort_def)

lemma insert_by_not_Nil: "insert_by cmp x ys \<noteq> []"
  by (cases ys) simp_all

lemma js_sort_Nil_iff: "js_sort cmp xs = [] \<longleftrightarrow> xs = []"
  by (cases xs) (simp_all add: js_sort_def insert_by_not_Nil)

lemma hd_insert_by:
  "hd (insert_by cmp x ys) = (if ys = [] \<or> cmp x (hd ys) \<le> 0 then x else hd ys)"
  by (cases ys) simp_all

lemma hd_js_sort_first_max:
  "(xs :: Entry list) \<noteq> [] \<Longrightarrow>
   \<exists>i<length xs. hd (js_sort (\<lambda>a b. rating b - rating a) xs) = xs ! i \<and>
     (\<forall>j<length xs. rating (xs ! j) \<le> rating (xs ! i)) \<and>
     (\<forall>j<i. rating (xs ! j) < rating (xs ! i))"
proof (induction xs)
  case Nil
  then show ?case by simp
next
  case (Cons x xs)
  let ?cmp = "\<lambda>a b. rating b - rating (a::Entry)"
  show ?case
  proof (cases "xs = []")
    case True
    then show ?thesis by (simp add: js_sort_def)
  next
    case False
    from Cons.IH [OF False] obtain i where i: "i < length xs"
      and h: "hd (js_sort ?cmp xs) = xs ! i"
      and mx: "\<forall>j<length xs. rating (xs ! j) \<le> rating (xs ! i)"
      and fst: "\<forall>j<i. rating (xs ! j) < rating (xs ! i)"
      by blast
    have ne: "js_sort ?cmp xs \<noteq> []" using False by (simp add: js_sort_Nil_iff)
    show ?thesis
    proof (cases "rating (xs ! i) \<le> rating x")
      case True
      have "hd (js_sort ?cmp (x # xs)) = x"
        using True ne h by (simp add: js_sort_Cons hd_insert_by)
      moreover have "\<forall>j<length (x # xs). rating ((x # xs) ! j) \<le> rating x"
      proof (intro allI impI)
        fix j assume "j < length (x # xs)"
        then show "rating ((x # xs) ! j) \<le> rating x"
          using mx True by (cases j) (auto intro: order_trans)
      qed
      ultimately show ?thesis by (intro exI [of _ 0]) simp
    next
      case False
      have "hd (js_sort ?cmp (x # xs)) = xs ! i"
        using False ne h by (simp add: js_sort_Cons hd_insert_by)
      moreover have "\<forall>j<length (x # xs). rating ((x # xs) ! j) \<le> rating (xs ! i)"
      proof (intro allI impI)
        fix j assume "j < length (x # xs)"
        then show "rating ((x # xs) ! j) \<le> rating (xs ! i)"
          using mx False by (cases j) auto
      qed
      moreover have "\<forall>j<Suc i. rating ((x # xs) ! j) < rating (xs ! i)"
      proof (intro allI impI)
        fix j assume "j < Suc i"
        then show "rating ((x # xs) ! j) < rating (xs ! i)"
          using fst False by (cases j) auto
      qed
      ultimately show ?thesis using i by (intro exI [of _ "Suc i"]) simp
    qed
  qed
qed


lemma js_month_plain:
  "100 \<le> year \<Longrightarrow> 1 \<le> month \<Longrightarrow> month \<le> 12 \<Longrightarrow> js_month year (month - 1) = (year, month)"
  by (simp add: js_month_def Let_def)

lemma doy_bounds:
  "0 \<le> (a::int) \<Longrightarrow> a \<le> 11 \<Longrightarrow> 0 \<le> (153 * a + 2) div 5 \<and> (153 * a + 2) div 5 \<le> 337"
proof
  assume a: "0 \<le> a" "a \<le> 11"
  then show "0 \<le> (153 * a + 2) div 5" by (simp add: pos_imp_zdiv_nonneg_iff)
  have "(153 * a + 2) div 5 \<le> (153 * 11 + 2) div 5"
    using a by (intro zdiv_mono1) simp_all
  then show "(153 * a + 2) div 5 \<le> 337" by simp
qed

lemma quarter_bounds:
  "0 \<le> (a::int) \<Longrightarrow> a \<le> 399 \<Longrightarrow>
   0 \<le> a div 4 \<and> a div 4 \<le> 99 \<and> 0 \<le> a div 100 \<and> a div 100 \<le> 3"
proof (intro conjI)
  assume a: "0 \<le> a" "a \<le> 399"
  then show "0 \<le> a div 4" "0 \<le> a div 100" by (simp_all add: pos_imp_zdiv_nonneg_iff)
  have "a div 4 \<le> 399 div 4" using a by (intro zdiv_mono1) simp_all
  then show "a div 4 \<le> 99" by simp
  have "a div 100 \<le> 399 div 100" using a by (intro zdiv_mono1) simp_all
  then show "a div 100 \<le> 3" by simp
qed

lemma era_bounds: "99 \<le> (a::int) \<Longrightarrow> a \<le> 9999 \<Longrightarrow> 0 \<le> a div 400 \<and> a div 400 \<le> 24"
proof
  assume a: "99 \<le> a" "a \<le> 9999"
  then show "0 \<le> a div 400" by (simp add: pos_imp_zdiv_nonneg_iff)
  have "a div 400 \<le> 9999 div 400" using a by (intro zdiv_mono1) simp_all
  then show "a div 400 \<le> 24" by simp
qed

lemma day_number_bounds:
  assumes "100 \<le> y" and "y \<le> 9999" and "1 \<le> m" and "m \<le> 12" and "1 \<le> d" and "d \<le> 31"
  shows "valid_date (y, m, d)"
proof -
  define y' where "y' = (if m \<le> 2 then y - 1 else y)"
  define era where "era = y' div 400"
  define yoe where "yoe = y' - era * 400"
  define mp where "mp = (if 2 < m then m - 3 else m + 9)"
  define q5 where "q5 = (153 * mp + 2) div 5"
  define q4 where "q4 = yoe div 4"
  define q100 where "q100 = yoe div 100"
  have y: "99 \<le> y'" "y' \<le> 9999" using assms(1,2) by (auto simp: y'_def)
  have era: "0 \<le> era" "era \<le> 24" using era_bounds [OF y] by (simp_all add: era_def)
  have "yoe = y' mod 400" by (simp add: yoe_def era_def minus_div_mult_eq_mod)
  then have yoe: "0 \<le> yoe" "yoe \<le> 399" by simp_all
  have mp: "0 \<le> mp" "mp \<le> 11" using assms(3,4) by (auto simp: mp_def)
  have q5: "0 \<le> q5" "q5 \<le> 337" using doy_bounds [OF mp] by (simp_all add: q5_def)
  have q: "0 \<le> q4" "q4 \<le> 99" "0 \<le> q100" "q100 \<le> 3"
    using quarter_bounds [OF yoe] by (simp_all add: q4_def q100_def)
  have "day_number (y, m, d) = era * 146097 + (yoe * 365 + q4 - q100 + (q5 + d - 1)) - 719468"
    by (simp add: day_number_def Let_def y'_def era_def yoe_def mp_def q5_def q4_def q100_def)
  with era yoe q5 q assms(5,6) show ?thesis
    unfolding valid_date_def by linarith
qed

lemma getDatesInMonth_plain:
  assumes "100 \<le> year" and "year \<le> 9999" and "1 \<le> month" and "month \<le> 12"
  shows "getDatesInMonth year month =
           Some (map (\<lambda>day. getDateString (year, month, day)) [1..days_in_month year month])"
proof -
  have v: "valid_date (year, month, day)" if "1 \<le> day" and "day \<le> days_in_month year month" for day
    using that assms days_in_month_le [of year month] by (intro day_number_bounds) auto
  have 1: "1 \<le> days_in_month year month" by (simp add: days_in_month_def)
  have "list_all (\<lambda>day. valid_date (year, month, day)) [1..days_in_month year month]"
    using v by (simp add: list_all_iff)
  with v [of "days_in_month year month"] 1 assms show ?thesis
    by (simp add: getDatesInMonth_def js_month_plain Let_def)
qed

lemma dated_in_month_iff:
  assumes "100 \<le> year" and "year \<le> 9999" and "1 \<le> month" and "month \<le> 12"
  shows "dateString \<in> set (map (\<lambda>day. getDateString (year, month, day)) [1..days_in_month year month])
         \<longleftrightarrow> dated_in_month year month dateString"
proof
  assume "dateString \<in> set (map (\<lambda>day. getDateString (year, month, day))
      [1..days_in_month year month])"
  then obtain day where d: "1 \<le> day" "day \<le> days_in_month year month"
    and s: "dateString = getDateString (year, month, day)" by auto
  from parseISO_getDateString [of year month day] assms d
  have "parseISO dateString = Some (year, month, day)" unfolding s by simp
  then show "dated_in_month year month dateString" by (simp add: dated_in_month_def)
next
  assume "dated_in_month year month dateString"
  then obtain day where p: "parseISO dateString = Some (year, month, day)"
    by (auto simp: dated_in_month_def split: option.splits)
  then have "1 \<le> day" "day \<le> days_in_month year month"
    by (auto simp: parseISO_def Let_def validateDate_def split: if_splits)
  moreover have "dateString = getDateString (year, month, day)"
    using p assms(1) by (intro getDateString_parseISO) simp_all
  ultimately show "dateString \<in> set (map (\<lambda>day. getDateString (year, month, day))
      [1..days_in_month year month])" by auto
qed

lemma calculateMonthStats_plain:
  assumes "100 \<le> year" and "year \<le> 9999" and "1 \<le> month" and "month \<le> 12"
  shows "\<exists>stats. calculateMonthStats entries year month = Some stats \<and>
           bestDay stats =
             (if entries_in_month entries year month = [] then None
              else (case js_sort (\<lambda>a b. rating b - rating a) (entries_in_month entries year month) of
                      [] \<Rightarrow> None
                    | best # _ \<Rightarrow> Some \<lparr>bd_date = entry_date best, bd_rating = rating best\<rparr>))"
proof -
  let ?dates = "map (\<lambda>day. getDateString (year, month, day)) [1..days_in_month year month]"
  have f: "filter (\<lambda>entry. entry_date entry \<in> set ?dates) entries = entries_in_month entries year month"
    unfolding entries_in_month_def
    by (intro filter_cong refl) (rule dated_in_month_iff [OF assms])
  show ?thesis
    unfolding calculateMonthStats_def getDatesInMonth_plain [OF assms] option.case Let_def f
    by simp
qed

text \<open>
  Claim C7, for the months the function reads as they are written: a month 1..12 of a
  year 100..9999. The statistics are returned. With no entry dated in the month,
  \<open>bestDay\<close> is null. Otherwise it is the date and rating of an entry dated in the month
  whose rating is the greatest of the month, and of the first such entry in the order of
  the input: every entry of the month before it has a smaller rating. An entry is dated
  in the month when its date is a well-formed \<open>YYYY-MM-DD\<close> string of a day of that year
  and month.
\<close>

theorem calculateMonthStats_bestDay:
  assumes "100 \<le> year" and "year \<le> 9999" and "1 \<le> month" and "month \<le> 12"
  shows "\<exists>stats. calculateMonthStats entries year month = Some stats \<and>
           (entries_in_month entries year month = [] \<longrightarrow> bestDay stats = None) \<and>
           (entries_in_month entries year month \<noteq> [] \<longrightarrow>
              (\<exists>i<length (entries_in_month entries year month).
                 bestDay stats =
                   Some \<lparr>bd_date = entry_date (entries_in_month entries year month ! i),
                         bd_rating = rating (entries_in_month entries year month ! i)\<rparr> \<and>
                 (\<forall>j<length (entries_in_month entries year month).
                    rating (entries_in_month entries year month ! j)
                      \<le> rating (entries_in_month entries year month ! i)) \<and>
                 (\<forall>j<i. rating (entries_in_month entries year month ! j)
                      < rating (entries_in_month entries year month ! i))))"
proof -
  let ?m = "entries_in_month entries year month"
  let ?cmp = "\<lambda>a b. rating b - rating (a::Entry)"
  from calculateMonthStats_plain [OF assms, of entries] obtain stats
    where c: "calculateMonthStats entries year month = Some stats"
      and b: "bestDay stats =
             (if ?m = [] then None
              else (case js_sort ?cmp ?m of
                      [] \<Rightarrow> None
                    | best # _ \<Rightarrow> Some \<lparr>bd_date = entry_date best, bd_rating = rating best\<rparr>))"
    by blast
  have empty: "?m = [] \<longrightarrow> bestDay stats = None" using b by simp
  have some: "?m \<noteq> [] \<longrightarrow>
              (\<exists>i<length ?m.
                 bestDay stats = Some \<lparr>bd_date = entry_date (?m ! i), bd_rating = rating (?m ! i)\<rparr> \<and>
                 (\<forall>j<length ?m. rating (?m ! j) \<le> rating (?m ! i)) \<and>
                 (\<forall>j<i. rating (?m ! j) < rating (?m ! i)))"
  proof
    assume ne: "?m \<noteq> []"
    from hd_js_sort_first_max [OF ne] obtain i where i: "i < length ?m"
      and h: "hd (js_sort ?cmp ?m) = ?m ! i"
      and mx: "\<forall>j<length ?m. rating (?m ! j) \<le> rating (?m ! i)"
      and fst: "\<forall>j<i. rating (?m ! j) < rating (?m ! i)"
      by blast
    have "js_sort ?cmp ?m \<noteq> []" using ne by (simp add: js_sort_Nil_iff)
    then obtain x xs where s: "js_sort ?cmp ?m = x # xs" by (cases "js_sort ?cmp ?m") auto
    with h have "x = ?m ! i" by simp
    with s ne b have "bestDay stats =
        Some \<lparr>bd_date = entry_date (?m ! i), bd_rating = rating (?m ! i)\<rparr>"
      by simp
    with i mx fst show "\<exists>i<length ?m.
                 bestDay stats = Some \<lparr>bd_date = entry_date (?m ! i), bd_rating = rating (?m ! i)\<rparr> \<and>
                 (\<forall>j<length ?m. rating (?m ! j) \<le> rating (?m ! i)) \<and>
                 (\<forall>j<i. rating (?m ! j) < rating (?m ! i))"
      by blast
  qed
  from c empty some show ?thesis by blast
qed

lemma june_sample:
  "entries_in_month
     [sample_entry ''a'' ''2024-06-02'' 3, sample_entry ''b'' ''2024-06-30'' 7,
      sample_entry ''c'' ''2024-05-31'' 7, sample_entry ''d'' ''2024-06-03'' 7] 2024 6
   = [sample_entry ''a'' ''2024-06-02'' 3, sample_entry ''b'' ''2024-06-30'' 7,
      sample_entry ''d'' ''2024-06-03'' 7]"
  by code_simp

lemma july_sample:
  "entries_in_month [sample_entry ''a'' ''2024-06-02'' 3] 2024 7 = []"
  by code_simp

theorem calculateMonthStats_bestDay_witness:
  "map_option bestDay (calculateMonthStats
     [sample_entry ''a'' ''2024-06-02'' 3, sample_entry ''b'' ''2024-06-30'' 7,
      sample_entry ''c'' ''2024-05-31'' 7, sample_entry ''d'' ''2024-06-03'' 7] 2024 6)
   = Some (Some \<lparr>bd_date = ''2024-06-30'', bd_rating = 7\<rparr>) \<and>
   map_option bestDay (calculateMonthStats [sample_entry ''a'' ''2024-06-02'' 3] 2024 7) = Some None"
proof -
  let ?es = "[sample_entry ''a'' ''2024-06-02'' 3, sample_entry ''b'' ''2024-06-30'' 7,
      sample_entry ''c'' ''2024-05-31'' 7, sample_entry ''d'' ''2024-06-03'' 7]"
  let ?m = "[sample_entry ''a'' ''2024-06-02'' 3, sample_entry ''b'' ''2024-06-30'' 7,
      sample_entry ''d'' ''2024-06-03'' 7]"
  have r: "(100::int) \<le> 2024" "(2024::int) \<le> 9999" "(1::int) \<le> 6" "(6::int) \<le> 12"
    "(1::int) \<le> 7" "(7::int) \<le> 12" by simp_all
  from calculateMonthStats_bestDay [OF r(1,2,3,4), of ?es] obtain stats i
    where c: "calculateMonthStats ?es 2024 6 = Some stats" and i: "i < length ?m"
    and b: "bestDay stats = Some \<lparr>bd_date = entry_date (?m ! i), bd_rating = rating (?m ! i)\<rparr>"
    and mx: "\<forall>j<length ?m. rating (?m ! j) \<le> rating (?m ! i)"
    and fst: "\<forall>j<i. rating (?m ! j) < rating (?m ! i)"
    unfolding june_sample by auto
  from i have "i = 0 \<or> i = 1 \<or> i = 2" by auto
  moreover have "i \<noteq> 0"
  proof
    assume "i = 0"
    with mx [rule_format, of 1] show False by (simp add: sample_entry_def)
  qed
  moreover have "i \<noteq> 2"
  proof
    assume "i = 2"
    with fst [rule_format, of 1] show False by (simp add: sample_entry_def)
  qed
  ultimately have "i = 1" by blast
  with b c have one: "map_option bestDay (calculateMonthStats ?es 2024 6) =
      Some (Some \<lparr>bd_date = ''2024-06-30'', bd_rating = 7\<rparr>)"
    by (simp add: sample_entry_def)
  from calculateMonthStats_bestDay [OF r(1,2,5,6), of "[sample_entry ''a'' ''2024-06-02'' 3]"]
  have two: "map_option bestDay (calculateMonthStats [sample_entry ''a'' ''2024-06-02'' 3] 2024 7)
      = Some None"
    unfolding july_sample by auto
  from one two show ?thesis by simp
qed

text \<open>
  Outside that range the month the function looks at is not the month it was given, or
  there is none: \<open>Date\<close> reads a year 0..99 as 1900..1999, so the entry of 15 June of the
  year 50 is not found in June of the year 50; and in the first month \<open>Date\<close> can hold,
  formatting the first day throws.
\<close>

theorem two_digit_year_counterexample:
  "entries_in_month [sample_entry ''a'' ''0050-06-15'' 5] 50 6 = [sample_entry ''a'' ''0050-06-15'' 5] \<and>
   calculateMonthStats [sample_entry ''a'' ''0050-06-15'' 5] 50 6
     = Some \<lparr>totalEntries = 0, averageRating = None, bestDay = None, completionRate = 0\<rparr> \<and>
   entries_in_month [] (- 271821) 4 = [] \<and>
   calculateMonthStats [] (- 271821) 4 = None"
  by code_simp

section \<open>Create, update and delete on a working store\<close>

lemma store_call_no_fault: "faults s = [] \<Longrightarrow> store_call s = (None, s)"
  by (simp add: store_call_def)

lemma store_call_fault: "faults s = Some m # fs \<Longrightarrow> store_call s = (Some m, s\<lparr>faults := fs\<rparr>)"
  by (simp add: store_call_def)


lemma set_by_entry_date: "set (by_entry_date es) = set es"
  by (simp add: by_entry_date_def by_id_def)

lemma find_Some_ex: "\<exists>x\<in>set xs. P x \<Longrightarrow> \<exists>y. find P xs = Some y \<and> P y \<and> y \<in> set xs"
  by (induction xs) auto

lemma find_unique:
  "distinct (map f xs) \<Longrightarrow> e \<in> set xs \<Longrightarrow> find (\<lambda>x. f x = f e) xs = Some e"
  by (induction xs) (auto simp: image_iff)

lemma filter_unique:
  "distinct (map f xs) \<Longrightarrow> e \<in> set xs \<Longrightarrow> filter (\<lambda>x. f x = f e) xs = [e]"
proof (induction xs)
  case Nil
  then show ?case by simp
next
  case (Cons a xs)
  show ?case
  proof (cases "a = e")
    case True
    have "filter (\<lambda>x. f x = f e) xs = []"
      using Cons.prems(1) True by (auto simp: filter_empty_conv image_iff)
    with True show ?thesis by simp
  next
    case False
    with Cons.prems have "e \<in> set xs" and "f a \<noteq> f e" by (auto simp: image_iff)
    with Cons show ?thesis by simp
  qed
qed

lemma getEntryByDate_no_fault:
  "faults s = [] \<Longrightarrow>
   getEntryByDate d s = (Inr (find (\<lambda>e. entry_date e = d) (by_entry_date (rows s))), s)"
  by (simp add: getEntryByDate_def table_first_by_date_def store_call_no_fault)

lemma getEntryById_no_fault:
  "faults s = [] \<Longrightarrow> getEntryById i s = (Inr (find (\<lambda>e. entry_id e = i) (rows s)), s)"
  by (simp add: getEntryById_def table_get_def store_call_no_fault)

text \<open>
  Claim C1. In a store that holds an entry \<open>e\<close> for the date \<open>d\<close>, creating an entry
  for \<open>d\<close> with an otherwise valid payload fails with the duplicate-date error, the store
  is left as it was, and \<open>e\<close> is still its only record for \<open>d\<close>. (The store is one
  whose engine answers the read: no fault is scheduled.)
\<close>

theorem createEntry_duplicate_date:
  assumes "wf_store (rows s)" and "faults s = []"
    and "e \<in> set (rows s)" and "entry_date e = c_entry_date input"
    and "valid (validateEntry today (partial_of_create input) False)"
  shows "createEntry today now uuid input s =
           (Inl (Error (''An entry already exists for '' @ c_entry_date input @
                        ''. Please edit the existing entry instead.'')), s) \<and>
         filter (\<lambda>x. entry_date x = c_entry_date input) (rows s) = [e]"
proof -
  have "\<exists>x\<in>set (by_entry_date (rows s)). entry_date x = c_entry_date input"
    using assms(3,4) by (auto simp: set_by_entry_date)
  from find_Some_ex [OF this] obtain y
    where "find (\<lambda>x. entry_date x = c_entry_date input) (by_entry_date (rows s)) = Some y"
    by blast
  then have "createEntry today now uuid input s =
           (Inl (Error (''An entry already exists for '' @ c_entry_date input @
                        ''. Please edit the existing entry instead.'')), s)"
    using assms(2,5) by (simp add: createEntry_def getEntryByDate_no_fault)
  moreover have "filter (\<lambda>x. entry_date x = c_entry_date input) (rows s) = [e]"
    using filter_unique [of entry_date "rows s" e] assms(1,3,4) by (simp add: wf_store_def)
  ultimately show ?thesis by simp
qed

lemma sample_valid:
  "valid (validateEntry (2024, 6, 10)
     (partial_of_create \<lparr>c_entry_date = ''2024-06-01'', c_gratitude_text = ''rain'', c_rating = 4\<rparr>)
     False)"
  by code_simp

theorem createEntry_duplicate_date_witness:
  "createEntry (2024, 6, 10) 20 ''u2''
     \<lparr>c_entry_date = ''2024-06-01'', c_gratitude_text = ''rain'', c_rating = 4\<rparr>
     (sample_db [sample_entry ''u1'' ''2024-06-01'' 7])
   = (Inl (Error ''An entry already exists for 2024-06-01. Please edit the existing entry instead.''),
      sample_db [sample_entry ''u1'' ''2024-06-01'' 7]) \<and>
   filter (\<lambda>x. entry_date x = ''2024-06-01'') (rows (sample_db [sample_entry ''u1'' ''2024-06-01'' 7]))
   = [sample_entry ''u1'' ''2024-06-01'' 7]"
  using createEntry_duplicate_date [where s = "sample_db [sample_entry ''u1'' ''2024-06-01'' 7]"
      and e = "sample_entry ''u1'' ''2024-06-01'' 7"
      and input = "\<lparr>c_entry_date = ''2024-06-01'', c_gratitude_text = ''rain'', c_rating = 4\<rparr>"
      and today = "(2024, 6, 10)" and now = 20 and uuid = "''u2''"] sample_valid
  by (simp add: sample_db_def sample_entry_def wf_store_def)

lemma apply_changes_self:
  "apply_changes e (e\<lparr>rating := r, updated_at := n\<rparr>) = e\<lparr>rating := r, updated_at := n\<rparr>"
  by (cases "synced_at e"; cases "deleted e") (simp_all add: apply_changes_def)

text \<open>
  Claim C3. In a store that holds an entry \<open>e\<close> with id \<open>i\<close>, updating \<open>i\<close> with only a
  rating \<open>R\<close> in 1..7 succeeds; the record returned and stored is \<open>e\<close> with the rating
  \<open>R\<close> and \<open>updated_at\<close> set to the current time, every other field as before (id,
  entry date, creation time, text), and every other record of the store is untouched.
\<close>

theorem updateEntry_rating_only:
  assumes "wf_store (rows s)" and "faults s = []"
    and "e \<in> set (rows s)" and "entry_id e = i" and "1 \<le> R" and "R \<le> 7"
  shows "updateEntry today now i \<lparr>u_gratitude_text = None, u_rating = Some R\<rparr> s =
           (Inr (e\<lparr>rating := R, updated_at := now\<rparr>),
            s\<lparr>rows := map (\<lambda>x. if x = e then e\<lparr>rating := R, updated_at := now\<rparr> else x) (rows s)\<rparr>)"
proof -
  have v: "valid (validateEntry today (partial_of_update \<lparr>u_gratitude_text = None, u_rating = Some R\<rparr>) True)"
    using assms(5,6) by (simp add: validateEntry_def partial_of_update_def)
  have f: "find (\<lambda>x. entry_id x = i) (rows s) = Some e"
    using find_unique [of entry_id "rows s" e] assms(1,3,4) by (simp add: wf_store_def)
  have ex: "list_ex (\<lambda>x. entry_id x = i) (rows s)"
    using assms(3,4) by (auto simp: list_ex_iff)
  have same_id: "\<And>x. x \<in> set (rows s) \<Longrightarrow> entry_id x = i \<longleftrightarrow> x = e"
    using assms(1,3,4) by (auto simp: wf_store_def distinct_map inj_on_def)
  have same_date: "\<And>x. x \<in> set (rows s) \<Longrightarrow> entry_date x = entry_date e \<Longrightarrow> x = e"
    using assms(1,3) by (auto simp: wf_store_def distinct_map inj_on_def)
  have nocoll: "\<not> list_ex (\<lambda>x. entry_id x \<noteq> i \<and> (entry_id x = i \<or> entry_date x = entry_date e)) (rows s)"
    using same_id same_date by (auto simp: list_ex_iff)
  have m: "map (\<lambda>x. if entry_id x = i then apply_changes x (e\<lparr>rating := R, updated_at := now\<rparr>) else x) (rows s)
         = map (\<lambda>x. if x = e then e\<lparr>rating := R, updated_at := now\<rparr> else x) (rows s)"
    using same_id by (intro map_cong) (auto simp: apply_changes_self)
  have upd: "table_update i (e\<lparr>rating := R, updated_at := now\<rparr>) s =
      (Inr 1, s\<lparr>rows := map (\<lambda>x. if x = e then e\<lparr>rating := R, updated_at := now\<rparr> else x) (rows s)\<rparr>)"
    using assms(2,4) ex nocoll m by (simp add: table_update_def store_call_no_fault)
  show ?thesis
    using v f upd assms(2) by (simp add: updateEntry_def getEntryById_no_fault Let_def)
qed

theorem updateEntry_rating_only_witness:
  "updateEntry (2024, 6, 10) 20 ''u1'' \<lparr>u_gratitude_text = None, u_rating = Some 2\<rparr>
     (sample_db [sample_entry ''u1'' ''2024-06-01'' 7, sample_entry ''u2'' ''2024-06-02'' 5])
   = (Inr ((sample_entry ''u1'' ''2024-06-01'' 7)\<lparr>rating := 2, updated_at := 20\<rparr>),
      sample_db [(sample_entry ''u1'' ''2024-06-01'' 7)\<lparr>rating := 2, updated_at := 20\<rparr>,
                 sample_entry ''u2'' ''2024-06-02'' 5])"
  using updateEntry_rating_only [where s = "sample_db [sample_entry ''u1'' ''2024-06-01'' 7,
        sample_entry ''u2'' ''2024-06-02'' 5]"
      and e = "sample_entry ''u1'' ''2024-06-01'' 7" and i = "''u1''" and R = 2
      and today = "(2024, 6, 10)" and now = 20]
  by (simp add: sample_db_def sample_entry_def wf_store_def)

text \<open>
  Claim C8. Deleting an id the store holds removes the record with that id and no other;
  reading the id then gives null and deleting it again fails with the not-found error.
  Deleting an id the store does not hold fails with the not-found error and leaves the
  store as it was.
\<close>

theorem deleteEntry_then_not_found:
  assumes "faults s = []"
  shows "(list_ex (\<lambda>x. entry_id x = i) (rows s) \<longrightarrow>
            deleteEntry i s = (Inr (), s\<lparr>rows := filter (\<lambda>x. entry_id x \<noteq> i) (rows s)\<rparr>) \<and>
            getEntryById i (s\<lparr>rows := filter (\<lambda>x. entry_id x \<noteq> i) (rows s)\<rparr>)
              = (Inr None, s\<lparr>rows := filter (\<lambda>x. entry_id x \<noteq> i) (rows s)\<rparr>) \<and>
            deleteEntry i (s\<lparr>rows := filter (\<lambda>x. entry_id x \<noteq> i) (rows s)\<rparr>)
              = (Inl (Error ''Entry not found''), s\<lparr>rows := filter (\<lambda>x. entry_id x \<noteq> i) (rows s)\<rparr>)) \<and>
         (\<not> list_ex (\<lambda>x. entry_id x = i) (rows s) \<longrightarrow>
            deleteEntry i s = (Inl (Error ''Entry not found''), s))"
proof -
  let ?s' = "s\<lparr>rows := filter (\<lambda>x. entry_id x \<noteq> i) (rows s)\<rparr>"
  have f': "faults ?s' = []" using assms by simp
  have gone: "find (\<lambda>x. entry_id x = i) (rows ?s') = None"
    by (simp add: find_None_iff)
  have absent: "\<not> list_ex (\<lambda>x. entry_id x = i) (rows s) \<Longrightarrow>
      deleteEntry i s = (Inl (Error ''Entry not found''), s)"
  proof -
    assume "\<not> list_ex (\<lambda>x. entry_id x = i) (rows s)"
    then have "find (\<lambda>x. entry_id x = i) (rows s) = None"
      by (simp add: find_None_iff list_ex_iff)
    then show ?thesis using assms by (simp add: deleteEntry_def getEntryById_no_fault)
  qed
  have present: "list_ex (\<lambda>x. entry_id x = i) (rows s) \<Longrightarrow> deleteEntry i s = (Inr (), ?s')"
  proof -
    assume "list_ex (\<lambda>x. entry_id x = i) (rows s)"
    then have "\<exists>x\<in>set (rows s). entry_id x = i" by (simp add: list_ex_iff)
    from find_Some_ex [OF this] obtain y where "find (\<lambda>x. entry_id x = i) (rows s) = Some y"
      by blast
    then show ?thesis
      using assms by (simp add: deleteEntry_def getEntryById_no_fault table_delete_def store_call_no_fault)
  qed
  have again: "deleteEntry i ?s' = (Inl (Error ''Entry not found''), ?s')"
    using gone f' by (simp add: deleteEntry_def getEntryById_no_fault del: select_convs)
  have get: "getEntryById i ?s' = (Inr None, ?s')"
    using gone f' by (simp add: getEntryById_no_fault del: select_convs)
  show ?thesis using absent present again get by blast
qed

theorem deleteEntry_then_not_found_witness:
  "deleteEntry ''u1'' (sample_db [sample_entry ''u1'' ''2024-06-01'' 7, sample_entry ''u2'' ''2024-06-02'' 5])
     = (Inr (), sample_db [sample_entry ''u2'' ''2024-06-02'' 5]) \<and>
   getEntryById ''u1'' (sample_db [sample_entry ''u2'' ''2024-06-02'' 5])
     = (Inr None, sample_db [sample_entry ''u2'' ''2024-06-02'' 5]) \<and>
   deleteEntry ''u1'' (sample_db [sample_entry ''u2'' ''2024-06-02'' 5])
     = (Inl (Error ''Entry not found''), sample_db [sample_entry ''u2'' ''2024-06-02'' 5])"
  using deleteEntry_then_not_found [where i = "''u1''"
      and s = "sample_db [sample_entry ''u1'' ''2024-06-01'' 7, sample_entry ''u2'' ''2024-06-02'' 5]"]
    deleteEntry_then_not_found [where i = "''u1''"
      and s = "sample_db [sample_entry ''u2'' ''2024-06-02'' 5]"]
  by (simp add: sample_db_def sample_entry_def)

section \<open>Search\<close>

lemma is_space_lower_char: "is_space (lower_char c) = is_space c"
  by (auto simp: is_space_def lower_char_def Let_def)

lemma trim_toLowerCase: "trim (toLowerCase s) = toLowerCase (trim s)"
proof -
  have c: "is_space \<circ> lower_char = is_space"
    by (rule ext) (simp add: is_space_lower_char)
  have a: "dropWhile is_space (map lower_char xs) = map lower_char (dropWhile is_space xs)" for xs
    by (simp add: dropWhile_map c)
  show ?thesis
    by (simp add: trim_def toLowerCase_def a rev_map)
qed

lemma trim_Nil_iff: "trim s = [] \<longleftrightarrow> (\<forall>c\<in>set s. is_space c)"
proof
  assume "trim s = []"
  then have "\<forall>c\<in>set (dropWhile is_space s). is_space c"
    by (simp add: trim_def)
  moreover have "dropWhile is_space s \<noteq> [] \<Longrightarrow> \<not> is_space (hd (dropWhile is_space s))"
    by (rule hd_dropWhile)
  ultimately have "dropWhile is_space s = []"
    by (cases "dropWhile is_space s") auto
  then show "\<forall>c\<in>set s. is_space c"
    by simp
next
  assume "\<forall>c\<in>set s. is_space c"
  then show "trim s = []"
    by (auto simp: trim_def dest: set_dropWhileD)
qed

lemma startsWith_iff: "startsWith h n \<longleftrightarrow> (\<exists>post. h = n @ post)"
  by (induction h n rule: startsWith.induct) auto

lemma str_includes_iff: "str_includes h n \<longleftrightarrow> (\<exists>pre post. h = pre @ n @ post)"
proof (induction h)
  case Nil
  then show ?case by auto
next
  case (Cons c cs)
  show ?case
  proof
    assume "str_includes (c # cs) n"
    then consider "startsWith (c # cs) n" | "str_includes cs n" by auto
    then show "\<exists>pre post. c # cs = pre @ n @ post"
    proof cases
      case 1
      then obtain post where "c # cs = n @ post" by (auto simp: startsWith_iff)
      then have "c # cs = [] @ n @ post" by simp
      then show ?thesis by blast
    next
      case 2
      with Cons.IH obtain pre post where "cs = pre @ n @ post" by blast
      then have "c # cs = (c # pre) @ n @ post" by simp
      then show ?thesis by blast
    qed
  next
    assume "\<exists>pre post. c # cs = pre @ n @ post"
    then obtain pre post where e: "c # cs = pre @ n @ post" by blast
    show "str_includes (c # cs) n"
    proof (cases pre)
      case Nil
      with e have "startsWith (c # cs) n" by (auto simp: startsWith_iff)
      then show ?thesis by simp
    next
      case (Cons p ps)
      with e have "cs = ps @ n @ post" by simp
      with Cons.IH have "str_includes cs n" by blast
      then show ?thesis by simp
    qed
  qed
qed

lemma getAllEntries_no_fault:
  "faults s = [] \<Longrightarrow> getAllEntries s = (Inr (rev (by_entry_date (rows s))), s)"
  by (simp add: getAllEntries_def table_by_date_reverse_def store_call_no_fault)

lemma filter_by_entry_date: "filter P (by_entry_date es) = by_entry_date (filter P es)"
  by (simp add: by_entry_date_def by_id_def filter_sort)

text \<open>
  Claim C10. A query that is empty or made of white space only gives the empty list, not
  every entry. Any other query gives exactly the entries of the store whose lower-cased
  gratitude text contains the lower-cased, trimmed query as a substring, newest date
  first.
\<close>

theorem searchEntries_matches:
  assumes "faults s = []"
  shows "((\<forall>c\<in>set query. is_space c) \<longrightarrow> searchEntries query s = (Inr [], s)) \<and>
         (\<not> (\<forall>c\<in>set query. is_space c) \<longrightarrow>
            (\<exists>result. searchEntries query s = (Inr result, s) \<and>
               set result =
                 {e \<in> set (rows s).
                    \<exists>pre post. toLowerCase (gratitude_text e) = pre @ toLowerCase (trim query) @ post} \<and>
               result =
                 rev (by_entry_date
                   (filter (\<lambda>e. str_includes (toLowerCase (gratitude_text e)) (toLowerCase (trim query)))
                      (rows s)))))"
proof (intro conjI impI)
  assume "\<forall>c\<in>set query. is_space c"
  then have "trim query = []" by (simp add: trim_Nil_iff)
  with trim_toLowerCase [of query] have "trim (toLowerCase query) = []"
    by (simp add: toLowerCase_def)
  then show "searchEntries query s = (Inr [], s)"
    by (simp add: searchEntries_def)
next
  let ?q = "toLowerCase (trim query)"
  let ?P = "\<lambda>e. str_includes (toLowerCase (gratitude_text e)) ?q"
  let ?result = "rev (by_entry_date (filter ?P (rows s)))"
  assume "\<not> (\<forall>c\<in>set query. is_space c)"
  then have "trim query \<noteq> []" by (simp add: trim_Nil_iff)
  with trim_toLowerCase [of query] have ne: "trim (toLowerCase query) \<noteq> []"
    by (simp add: toLowerCase_def)
  have "searchEntries query s = (Inr (filter ?P (rev (by_entry_date (rows s)))), s)"
    using ne assms by (simp add: searchEntries_def getAllEntries_no_fault trim_toLowerCase)
  then have r: "searchEntries query s = (Inr ?result, s)"
    by (simp add: rev_filter [symmetric] filter_by_entry_date)
  have "set ?result =
      {e \<in> set (rows s). \<exists>pre post. toLowerCase (gratitude_text e) = pre @ ?q @ post}"
    by (auto simp: set_by_entry_date str_includes_iff)
  with r show "\<exists>result. searchEntries query s = (Inr result, s) \<and>
               set result =
                 {e \<in> set (rows s). \<exists>pre post. toLowerCase (gratitude_text e) = pre @ ?q @ post} \<and>
               result = ?result"
    by blast
qed

lemma search_sample:
  "rev (by_entry_date
     (filter (\<lambda>e. str_includes (toLowerCase (gratitude_text e)) (toLowerCase (trim '' Sun '')))
        [(sample_entry ''u1'' ''2024-06-01'' 7)\<lparr>gratitude_text := ''Warm SUN today''\<rparr>,
         (sample_entry ''u2'' ''2024-06-02'' 5)\<lparr>gratitude_text := ''Rain''\<rparr>,
         (sample_entry ''u3'' ''2024-06-03'' 6)\<lparr>gratitude_text := ''sunset walk''\<rparr>]))
   = [(sample_entry ''u3'' ''2024-06-03'' 6)\<lparr>gratitude_text := ''sunset walk''\<rparr>,
      (sample_entry ''u1'' ''2024-06-01'' 7)\<lparr>gratitude_text := ''Warm SUN today''\<rparr>]"
  by code_simp

theorem searchEntries_matches_witness:
  "searchEntries ''  ''
     (sample_db [(sample_entry ''u1'' ''2024-06-01'' 7)\<lparr>gratitude_text := ''Warm SUN today''\<rparr>,
         (sample_entry ''u2'' ''2024-06-02'' 5)\<lparr>gratitude_text := ''Rain''\<rparr>,
         (sample_entry ''u3'' ''2024-06-03'' 6)\<lparr>gratitude_text := ''sunset walk''\<rparr>])
   = (Inr [],
      sample_db [(sample_entry ''u1'' ''2024-06-01'' 7)\<lparr>gratitude_text := ''Warm SUN today''\<rparr>,
         (sample_entry ''u2'' ''2024-06-02'' 5)\<lparr>gratitude_text := ''Rain''\<rparr>,
         (sample_entry ''u3'' ''2024-06-03'' 6)\<lparr>gratitude_text := ''sunset walk''\<rparr>]) \<and>
   searchEntries '' Sun ''
     (sample_db [(sample_entry ''u1'' ''2024-06-01'' 7)\<lparr>gratitude_text := ''Warm SUN today''\<rparr>,
         (sample_entry ''u2'' ''2024-06-02'' 5)\<lparr>gratitude_text := ''Rain''\<rparr>,
         (sample_entry ''u3'' ''2024-06-03'' 6)\<lparr>gratitude_text := ''sunset walk''\<rparr>])
   = (Inr [(sample_entry ''u3'' ''2024-06-03'' 6)\<lparr>gratitude_text := ''sunset walk''\<rparr>,
           (sample_entry ''u1'' ''2024-06-01'' 7)\<lparr>gratitude_text := ''Warm SUN today''\<rparr>],
      sample_db [(sample_entry ''u1'' ''2024-06-01'' 7)\<lparr>gratitude_text := ''Warm SUN today''\<rparr>,
         (sample_entry ''u2'' ''2024-06-02'' 5)\<lparr>gratitude_text := ''Rain''\<rparr>,
         (sample_entry ''u3'' ''2024-06-03'' 6)\<lparr>gratitude_text := ''sunset walk''\<rparr>])"
proof -
  let ?s = "sample_db [(sample_entry ''u1'' ''2024-06-01'' 7)\<lparr>gratitude_text := ''Warm SUN today''\<rparr>,
         (sample_entry ''u2'' ''2024-06-02'' 5)\<lparr>gratitude_text := ''Rain''\<rparr>,
         (sample_entry ''u3'' ''2024-06-03'' 6)\<lparr>gratitude_text := ''sunset walk''\<rparr>]"
  have f: "faults ?s = []" by (simp add: sample_db_def)
  have blank: "\<forall>c\<in>set ''  ''. is_space c" by (simp add: is_space_def)
  have word: "\<not> (\<forall>c\<in>set '' Sun ''. is_space c)" by (simp add: is_space_def)
  have r: "rows ?s = [(sample_entry ''u1'' ''2024-06-01'' 7)\<lparr>gratitude_text := ''Warm SUN today''\<rparr>,
         (sample_entry ''u2'' ''2024-06-02'' 5)\<lparr>gratitude_text := ''Rain''\<rparr>,
         (sample_entry ''u3'' ''2024-06-03'' 6)\<lparr>gratitude_text := ''sunset walk''\<rparr>]"
    by (simp add: sample_db_def)
  from searchEntries_matches [OF f, of "''  ''"] blank
  have a: "searchEntries ''  '' ?s = (Inr [], ?s)" by blast
  from searchEntries_matches [OF f, of "'' Sun ''"] word
  have b: "searchEntries '' Sun '' ?s =
      (Inr [(sample_entry ''u3'' ''2024-06-03'' 6)\<lparr>gratitude_text := ''sunset walk''\<rparr>,
           (sample_entry ''u1'' ''2024-06-01'' 7)\<lparr>gratitude_text := ''Warm SUN today''\<rparr>], ?s)"
    unfolding r search_sample by blast
  from a b show ?thesis by blast
qed

section \<open>Failures of the engine\<close>

lemma table_faults:
  assumes "faults s = Some m # fs"
  shows "table_first_by_date d s = (Inl (Error m), s\<lparr>faults := fs\<rparr>)"
    and "table_get i s = (Inl (Error m), s\<lparr>faults := fs\<rparr>)"
    and "table_by_date_reverse s = (Inl (Error m), s\<lparr>faults := fs\<rparr>)"
    and "table_date_notEqual d s = (Inl (Error m), s\<lparr>faults := fs\<rparr>)"
    and "table_count s = (Inl (Error m), s\<lparr>faults := fs\<rparr>)"
    and "table_toArray s = (Inl (Error m), s\<lparr>faults := fs\<rparr>)"
  using assms
  by (simp_all add: table_first_by_date_def table_get_def table_by_date_reverse_def
      table_date_notEqual_def table_count_def table_toArray_def store_call_fault)

lemma read_faults:
  assumes "faults s = Some m # fs"
  shows "getEntryByDate d s = (Inl (Error (''Failed to load entry for '' @ d)), s\<lparr>faults := fs\<rparr>)"
    and "getEntryById i s = (Inl (Error (''Failed to load entry '' @ i)), s\<lparr>faults := fs\<rparr>)"
    and "getAllEntries s = (Inl (Error ''Failed to load entries''), s\<lparr>faults := fs\<rparr>)"
  using table_faults [OF assms]
  by (simp_all add: getEntryByDate_def getEntryById_def getAllEntries_def)

lemma gateway_read_failure:
  assumes "faults s = Some m # fs"
  shows "getTodayEntry today s = (Inl (Error ''Failed to load today's entry''), s\<lparr>faults := fs\<rparr>) \<and>
         getEntryByDate d s = (Inl (Error (''Failed to load entry for '' @ d)), s\<lparr>faults := fs\<rparr>) \<and>
         getEntryById i s = (Inl (Error (''Failed to load entry '' @ i)), s\<lparr>faults := fs\<rparr>) \<and>
         getAllEntries s = (Inl (Error ''Failed to load entries''), s\<lparr>faults := fs\<rparr>) \<and>
         (valid (validateEntry today (partial_of_create input) False) \<longrightarrow>
            createEntry today now uuid input s =
              (Inl (Error (''Failed to load entry for '' @ c_entry_date input)), s\<lparr>faults := fs\<rparr>)) \<and>
         (valid (validateEntry today (partial_of_update updates) True) \<longrightarrow>
            updateEntry today now i updates s =
              (Inl (Error (''Failed to load entry '' @ i)), s\<lparr>faults := fs\<rparr>)) \<and>
         deleteEntry i s = (Inl (Error (''Failed to load entry '' @ i)), s\<lparr>faults := fs\<rparr>) \<and>
         getEntryCount s = (Inr 0, s\<lparr>faults := fs\<rparr>) \<and>
         getRandomEntry today random s = (Inr None, s\<lparr>faults := fs\<rparr>) \<and>
         fst (searchEntries query s) = Inr []"
proof -
  have "getTodayEntry today s = (Inl (Error ''Failed to load today's entry''), s\<lparr>faults := fs\<rparr>)"
    using table_faults(1) [OF assms] by (simp add: getTodayEntry_def)
  moreover have "valid (validateEntry today (partial_of_create input) False) \<longrightarrow>
            createEntry today now uuid input s =
              (Inl (Error (''Failed to load entry for '' @ c_entry_date input)), s\<lparr>faults := fs\<rparr>)"
    using read_faults(1) [OF assms] by (simp add: createEntry_def)
  moreover have "valid (validateEntry today (partial_of_update updates) True) \<longrightarrow>
            updateEntry today now i updates s =
              (Inl (Error (''Failed to load entry '' @ i)), s\<lparr>faults := fs\<rparr>)"
    using read_faults(2) [OF assms] by (simp add: updateEntry_def)
  moreover have "deleteEntry i s = (Inl (Error (''Failed to load entry '' @ i)), s\<lparr>faults := fs\<rparr>)"
    using read_faults(2) [OF assms] by (simp add: deleteEntry_def)
  moreover have "getEntryCount s = (Inr 0, s\<lparr>faults := fs\<rparr>)"
    using table_faults(5) [OF assms] by (simp add: getEntryCount_def)
  moreover have "getRandomEntry today random s = (Inr None, s\<lparr>faults := fs\<rparr>)"
    using table_faults(4) [OF assms] by (simp add: getRandomEntry_def)
  moreover have "fst (searchEntries query s) = Inr []"
    using read_faults(3) [OF assms] by (simp add: searchEntries_def Let_def)
  ultimately show ?thesis
    using read_faults [OF assms] by simp
qed

lemma store_call_pass: "faults s = None # fs \<Longrightarrow> store_call s = (None, s\<lparr>faults := fs\<rparr>)"
  by (simp add: store_call_def)

lemma gateway_write_failure:
  assumes "faults s = None # Some m # fs"
  shows "valid (validateEntry today (partial_of_create input) False) \<and>
         \<not> list_ex (\<lambda>x. entry_date x = c_entry_date input) (rows s) \<longrightarrow>
           createEntry today now uuid input s =
             (Inl (Error (if str_includes m ''constraint''
                          then ''An entry already exists for this date. Please edit the existing entry instead.''
                          else ''Failed to save entry'')), s\<lparr>faults := fs\<rparr>)"
    and "valid (validateEntry today (partial_of_update updates) True) \<and>
         list_ex (\<lambda>x. entry_id x = i) (rows s) \<longrightarrow>
           updateEntry today now i updates s = (Inl (Error ''Failed to update entry''), s\<lparr>faults := fs\<rparr>)"
    and "list_ex (\<lambda>x. entry_id x = i) (rows s) \<longrightarrow>
           deleteEntry i s = (Inl (Error ''Failed to delete entry''), s\<lparr>faults := fs\<rparr>)"
proof -
  let ?s1 = "s\<lparr>faults := Some m # fs\<rparr>"
  have c1: "store_call s = (None, ?s1)" using assms by (rule store_call_pass)
  have c2: "store_call ?s1 = (Some m, s\<lparr>faults := fs\<rparr>)"
    using store_call_fault [of ?s1 m fs] by simp
  show "valid (validateEntry today (partial_of_create input) False) \<and>
         \<not> list_ex (\<lambda>x. entry_date x = c_entry_date input) (rows s) \<longrightarrow>
           createEntry today now uuid input s =
             (Inl (Error (if str_includes m ''constraint''
                          then ''An entry already exists for this date. Please edit the existing entry instead.''
                          else ''Failed to save entry'')), s\<lparr>faults := fs\<rparr>)"
  proof
    assume a: "valid (validateEntry today (partial_of_create input) False) \<and>
         \<not> list_ex (\<lambda>x. entry_date x = c_entry_date input) (rows s)"
    then have "find (\<lambda>x. entry_date x = c_entry_date input) (by_entry_date (rows s)) = None"
      by (simp add: find_None_iff set_by_entry_date list_ex_iff)
    with a c1 c2 show "createEntry today now uuid input s =
             (Inl (Error (if str_includes m ''constraint''
                          then ''An entry already exists for this date. Please edit the existing entry instead.''
                          else ''Failed to save entry'')), s\<lparr>faults := fs\<rparr>)"
      by (simp add: createEntry_def getEntryByDate_def table_first_by_date_def table_add_def Let_def)
  qed
  have found: "list_ex (\<lambda>x. entry_id x = i) (rows s) \<Longrightarrow>
      \<exists>y. find (\<lambda>x. entry_id x = i) (rows s) = Some y"
    using find_Some_ex [of "rows s" "\<lambda>x. entry_id x = i"] by (auto simp: list_ex_iff)
  show "valid (validateEntry today (partial_of_update updates) True) \<and>
         list_ex (\<lambda>x. entry_id x = i) (rows s) \<longrightarrow>
           updateEntry today now i updates s = (Inl (Error ''Failed to update entry''), s\<lparr>faults := fs\<rparr>)"
  proof
    assume a: "valid (validateEntry today (partial_of_update updates) True) \<and>
         list_ex (\<lambda>x. entry_id x = i) (rows s)"
    with found obtain y where "find (\<lambda>x. entry_id x = i) (rows s) = Some y" by blast
    with a c1 c2 show "updateEntry today now i updates s =
        (Inl (Error ''Failed to update entry''), s\<lparr>faults := fs\<rparr>)"
      by (simp add: updateEntry_def getEntryById_def table_get_def table_update_def Let_def)
  qed
  show "list_ex (\<lambda>x. entry_id x = i) (rows s) \<longrightarrow>
           deleteEntry i s = (Inl (Error ''Failed to delete entry''), s\<lparr>faults := fs\<rparr>)"
  proof
    assume "list_ex (\<lambda>x. entry_id x = i) (rows s)"
    with found obtain y where "find (\<lambda>x. entry_id x = i) (rows s) = Some y" by blast
    with c1 c2 show "deleteEntry i s = (Inl (Error ''Failed to delete entry''), s\<lparr>faults := fs\<rparr>)"
      by (simp add: deleteEntry_def getEntryById_def table_get_def table_delete_def)
  qed
qed

lemma schema_faults:
  assumes "faults s = Some m # fs"
  shows "getEntriesInRange localeCompare startDate endDate s =
           (Inl (Error ''Failed to load entries''), s\<lparr>faults := fs\<rparr>)"
    and "exportDatabase s = (Inl (Error m), s\<lparr>faults := fs\<rparr>)"
    and "clearDatabase s = (Inl (Error m), s\<lparr>faults := fs\<rparr>)"
    and "initDatabase s = (Inl (Error m), s\<lparr>faults := fs\<rparr>)"
    and "importDatabase (Json_entries (e # es)) s = importDatabase (Json_entries es) (s\<lparr>faults := fs\<rparr>)"
  using assms table_faults(6) [OF assms]
  by (simp_all add: getEntriesInRange_def table_date_between_def exportDatabase_def
      clearDatabase_def initDatabase_def importDatabase_def table_add_def store_call_fault)

lemma importDatabase_returns:
  "\<exists>imported s'. importDatabase (Json_entries es) s = (Inr imported, s')"
  by (simp add: importDatabase_def split: prod.splits)

text \<open>
  Claim C5, as the code has it. When the first call of the engine fails, the reads
  \<open>getTodayEntry\<close>, \<open>getEntryByDate\<close>, \<open>getEntryById\<close>, \<open>getAllEntries\<close>,
  \<open>getEntriesInRange\<close> and the operations \<open>createEntry\<close>, \<open>createTodayEntry\<close>,
  \<open>updateEntry\<close>, \<open>deleteEntry\<close> (which begin with such a read) reject with an error whose message is fixed by the
  service and does not carry the engine's message. \<open>getEntryCount\<close>, \<open>getRandomEntry\<close>
  and \<open>searchEntries\<close> do not reject: they return 0, null and the empty list.
  \<open>exportDatabase\<close>, \<open>clearDatabase\<close> and \<open>initDatabase\<close> reject with the engine's own
  error. \<open>importDatabase\<close> never rejects on a list of entries: a record whose add fails
  is skipped and the import goes on with the next. When the read succeeds and the write
  fails, \<open>createEntry\<close>, \<open>updateEntry\<close> and \<open>deleteEntry\<close> reject with a fixed message
  too.
\<close>

theorem gateway_store_failure:
  "(faults s = Some m # fs \<longrightarrow>
      getTodayEntry today s = (Inl (Error ''Failed to load today's entry''), s\<lparr>faults := fs\<rparr>) \<and>
      getEntryByDate d s = (Inl (Error (''Failed to load entry for '' @ d)), s\<lparr>faults := fs\<rparr>) \<and>
      getEntryById i s = (Inl (Error (''Failed to load entry '' @ i)), s\<lparr>faults := fs\<rparr>) \<and>
      getAllEntries s = (Inl (Error ''Failed to load entries''), s\<lparr>faults := fs\<rparr>) \<and>
      getEntriesInRange localeCompare startDate endDate s =
        (Inl (Error ''Failed to load entries''), s\<lparr>faults := fs\<rparr>) \<and>
      (valid (validateEntry today (partial_of_create input) False) \<longrightarrow>
         createEntry today now uuid input s =
           (Inl (Error (''Failed to load entry for '' @ c_entry_date input)), s\<lparr>faults := fs\<rparr>)) \<and>
      (valid (validateEntry today
                (partial_of_create \<lparr>c_entry_date = getTodayDateString today,
                                    c_gratitude_text = body, c_rating = r\<rparr>) False) \<longrightarrow>
         createTodayEntry today now uuid body r s =
           (Inl (Error (''Failed to load entry for '' @ getTodayDateString today)),
            s\<lparr>faults := fs\<rparr>)) \<and>
      (valid (validateEntry today (partial_of_update updates) True) \<longrightarrow>
         updateEntry today now i updates s =
           (Inl (Error (''Failed to load entry '' @ i)), s\<lparr>faults := fs\<rparr>)) \<and>
      deleteEntry i s = (Inl (Error (''Failed to load entry '' @ i)), s\<lparr>faults := fs\<rparr>) \<and>
      getEntryCount s = (Inr 0, s\<lparr>faults := fs\<rparr>) \<and>
      getRandomEntry today random s = (Inr None, s\<lparr>faults := fs\<rparr>) \<and>
      fst (searchEntries query s) = Inr [] \<and>
      exportDatabase s = (Inl (Error m), s\<lparr>faults := fs\<rparr>) \<and>
      clearDatabase s = (Inl (Error m), s\<lparr>faults := fs\<rparr>) \<and>
      initDatabase s = (Inl (Error m), s\<lparr>faults := fs\<rparr>) \<and>
      importDatabase (Json_entries (e # es)) s
        = importDatabase (Json_entries es) (s\<lparr>faults := fs\<rparr>)) \<and>
   (faults s = None # Some m # fs \<longrightarrow>
      (valid (validateEntry today (partial_of_create input) False) \<and>
       \<not> list_ex (\<lambda>x. entry_date x = c_entry_date input) (rows s) \<longrightarrow>
         createEntry today now uuid input s =
           (Inl (Error (if str_includes m ''constraint''
                        then ''An entry already exists for this date. Please edit the existing entry instead.''
                        else ''Failed to save entry'')), s\<lparr>faults := fs\<rparr>)) \<and>
      (valid (validateEntry today (partial_of_update updates) True) \<and>
       list_ex (\<lambda>x. entry_id x = i) (rows s) \<longrightarrow>
         updateEntry today now i updates s = (Inl (Error ''Failed to update entry''), s\<lparr>faults := fs\<rparr>)) \<and>
      (list_ex (\<lambda>x. entry_id x = i) (rows s) \<longrightarrow>
         deleteEntry i s = (Inl (Error ''Failed to delete entry''), s\<lparr>faults := fs\<rparr>))) \<and>
   (\<exists>imported s'. importDatabase (Json_entries es) s = (Inr imported, s'))"
proof (intro conjI impI)
  assume f: "faults s = Some m # fs"
  note r = gateway_read_failure [OF f, where today = today and d = d
      and i = i and input = input and now = now and uuid = uuid and updates = updates
      and random = random and query = query]
  show "getTodayEntry today s = (Inl (Error ''Failed to load today's entry''), s\<lparr>faults := fs\<rparr>)"
    and "getEntryByDate d s = (Inl (Error (''Failed to load entry for '' @ d)), s\<lparr>faults := fs\<rparr>)"
    and "getEntryById i s = (Inl (Error (''Failed to load entry '' @ i)), s\<lparr>faults := fs\<rparr>)"
    and "getAllEntries s = (Inl (Error ''Failed to load entries''), s\<lparr>faults := fs\<rparr>)"
    and "deleteEntry i s = (Inl (Error (''Failed to load entry '' @ i)), s\<lparr>faults := fs\<rparr>)"
    and "getEntryCount s = (Inr 0, s\<lparr>faults := fs\<rparr>)"
    and "getRandomEntry today random s = (Inr None, s\<lparr>faults := fs\<rparr>)"
    and "fst (searchEntries query s) = Inr []"
    using r by simp_all
  show "getEntriesInRange localeCompare startDate endDate s =
        (Inl (Error ''Failed to load entries''), s\<lparr>faults := fs\<rparr>)"
    and "exportDatabase s = (Inl (Error m), s\<lparr>faults := fs\<rparr>)"
    and "clearDatabase s = (Inl (Error m), s\<lparr>faults := fs\<rparr>)"
    and "initDatabase s = (Inl (Error m), s\<lparr>faults := fs\<rparr>)"
    and "importDatabase (Json_entries (e # es)) s
        = importDatabase (Json_entries es) (s\<lparr>faults := fs\<rparr>)"
    using schema_faults [OF f] by simp_all
  show "createEntry today now uuid input s =
           (Inl (Error (''Failed to load entry for '' @ c_entry_date input)), s\<lparr>faults := fs\<rparr>)"
    if "valid (validateEntry today (partial_of_create input) False)"
    using r that by simp
  show "updateEntry today now i updates s =
           (Inl (Error (''Failed to load entry '' @ i)), s\<lparr>faults := fs\<rparr>)"
    if "valid (validateEntry today (partial_of_update updates) True)"
    using r that by simp
  show "createTodayEntry today now uuid body r s =
           (Inl (Error (''Failed to load entry for '' @ getTodayDateString today)),
            s\<lparr>faults := fs\<rparr>)"
    if "valid (validateEntry today
                (partial_of_create \<lparr>c_entry_date = getTodayDateString today,
                                    c_gratitude_text = body, c_rating = r\<rparr>) False)"
    using that gateway_read_failure [OF f, where today = today and now = now and uuid = uuid
        and input = "\<lparr>c_entry_date = getTodayDateString today,
                           c_gratitude_text = body, c_rating = r\<rparr>"]
    by (simp add: createTodayEntry_def)
next
  assume f: "faults s = None # Some m # fs"
  show "createEntry today now uuid input s =
           (Inl (Error (if str_includes m ''constraint''
                        then ''An entry already exists for this date. Please edit the existing entry instead.''
                        else ''Failed to save entry'')), s\<lparr>faults := fs\<rparr>)"
    if "valid (validateEntry today (partial_of_create input) False) \<and>
       \<not> list_ex (\<lambda>x. entry_date x = c_entry_date input) (rows s)"
    using gateway_write_failure(1) [OF f, where today = today and input = input and now = now
        and uuid = uuid] that by blast
  show "updateEntry today now i updates s = (Inl (Error ''Failed to update entry''), s\<lparr>faults := fs\<rparr>)"
    if "valid (validateEntry today (partial_of_update updates) True) \<and>
       list_ex (\<lambda>x. entry_id x = i) (rows s)"
    using gateway_write_failure(2) [OF f, where today = today and i = i and now = now
        and updates = updates] that by blast
  show "deleteEntry i s = (Inl (Error ''Failed to delete entry''), s\<lparr>faults := fs\<rparr>)"
    if "list_ex (\<lambda>x. entry_id x = i) (rows s)"
    using gateway_write_failure(3) [OF f, where i = i] that by blast
next
  show "\<exists>imported s'. importDatabase (Json_entries es) s = (Inr imported, s')"
    by (rule importDatabase_returns)
qed

theorem gateway_store_failure_witness:
  "getEntryById ''u1''
     \<lparr>rows = [sample_entry ''u1'' ''2024-06-01'' 7], faults = [Some ''disk failure''],
      constraint_message = ''Key already exists''\<rparr>
   = (Inl (Error ''Failed to load entry u1''), sample_db [sample_entry ''u1'' ''2024-06-01'' 7]) \<and>
   exportDatabase
     \<lparr>rows = [sample_entry ''u1'' ''2024-06-01'' 7], faults = [Some ''disk failure''],
      constraint_message = ''Key already exists''\<rparr>
   = (Inl (Error ''disk failure''), sample_db [sample_entry ''u1'' ''2024-06-01'' 7]) \<and>
   deleteEntry ''u1''
     \<lparr>rows = [sample_entry ''u1'' ''2024-06-01'' 7], faults = [None, Some ''disk failure''],
      constraint_message = ''Key already exists''\<rparr>
   = (Inl (Error ''Failed to delete entry''), sample_db [sample_entry ''u1'' ''2024-06-01'' 7])"
  using gateway_store_failure [where m = "''disk failure''" and fs = "[]" and i = "''u1''"
      and s = "\<lparr>rows = [sample_entry ''u1'' ''2024-06-01'' 7], faults = [Some ''disk failure''],
      constraint_message = ''Key already exists''\<rparr>"]
    gateway_store_failure [where m = "''disk failure''" and fs = "[]" and i = "''u1''"
      and s = "\<lparr>rows = [sample_entry ''u1'' ''2024-06-01'' 7], faults = [None, Some ''disk failure''],
      constraint_message = ''Key already exists''\<rparr>"]
  by (simp add: sample_db_def sample_entry_def)

theorem store_failures_not_generic_counterexample:
  "getEntryCount
     \<lparr>rows = [sample_entry ''u1'' ''2024-06-01'' 7], faults = [Some ''disk failure''],
      constraint_message = ''Key already exists''\<rparr>
   = (Inr 0, sample_db [sample_entry ''u1'' ''2024-06-01'' 7]) \<and>
   getRandomEntry (2024, 6, 10) 0
     \<lparr>rows = [sample_entry ''u1'' ''2024-06-01'' 7], faults = [Some ''disk failure''],
      constraint_message = ''Key already exists''\<rparr>
   = (Inr None, sample_db [sample_entry ''u1'' ''2024-06-01'' 7]) \<and>
   searchEntries ''sun''
     \<lparr>rows = [sample_entry ''u1'' ''2024-06-01'' 7], faults = [Some ''disk failure''],
      constraint_message = ''Key already exists''\<rparr>
   = (Inr [], sample_db [sample_entry ''u1'' ''2024-06-01'' 7]) \<and>
   exportDatabase
     \<lparr>rows = [sample_entry ''u1'' ''2024-06-01'' 7], faults = [Some ''disk failure''],
      constraint_message = ''Key already exists''\<rparr>
   = (Inl (Error ''disk failure''), sample_db [sample_entry ''u1'' ''2024-06-01'' 7]) \<and>
   importDatabase (Json_entries [sample_entry ''u2'' ''2024-06-02'' 5])
     \<lparr>rows = [sample_entry ''u1'' ''2024-06-01'' 7], faults = [Some ''disk failure''],
      constraint_message = ''Key already exists''\<rparr>
   = (Inr 0, sample_db [sample_entry ''u1'' ''2024-06-01'' 7])"
  by code_simp

section \<open>Creation and update times\<close>

lemma createEntry_rows:
  "rows (snd (createEntry today now uuid input s)) = rows s \<or>
   (\<exists>e. rows (snd (createEntry today now uuid input s)) = rows s @ [e] \<and>
        created_at e = now \<and> updated_at e = now)"
  by (auto simp: createEntry_def getEntryByDate_def table_first_by_date_def table_add_def
      store_call_def Let_def split: list.splits option.splits)

lemma created_at_apply_changes: "created_at (apply_changes x c) = created_at c"
  and updated_at_apply_changes: "updated_at (apply_changes x c) = updated_at c"
  by (simp_all add: apply_changes_def)

lemma find_Some_mem: "find P xs = Some y \<Longrightarrow> y \<in> set xs"
  by (induction xs) (auto split: if_splits)

lemma updateEntry_rows:
  assumes "x \<in> set (rows (snd (updateEntry today now i updates s)))"
  shows "x \<in> set (rows s) \<or>
         (\<exists>e\<in>set (rows s). created_at x = created_at e \<and> updated_at x = now)"
  using assms
  by (auto simp: updateEntry_def getEntryById_def table_get_def table_update_def
      store_call_def Let_def created_at_apply_changes updated_at_apply_changes
      split: list.splits option.splits if_splits dest: find_Some_mem)

lemma deleteEntry_rows:
  "x \<in> set (rows (snd (deleteEntry i s))) \<Longrightarrow> x \<in> set (rows s)"
  by (auto simp: deleteEntry_def getEntryById_def table_get_def table_delete_def
      store_call_def split: list.splits option.splits if_splits)

lemma timestamps_ok_create:
  assumes "timestamps_ok t s" and "t \<le> now"
  shows "timestamps_ok now (snd (createEntry today now uuid input s))"
  using createEntry_rows [of today now uuid input s] assms
  by (fastforce simp: timestamps_ok_def)

lemma timestamps_ok_update:
  assumes "timestamps_ok t s" and "t \<le> now"
  shows "timestamps_ok now (snd (updateEntry today now i updates s))"
  unfolding timestamps_ok_def
proof
  fix x assume "x \<in> set (rows (snd (updateEntry today now i updates s)))"
  from updateEntry_rows [OF this] assms
  show "created_at x \<le> updated_at x \<and> created_at x \<le> now"
    by (fastforce simp: timestamps_ok_def)
qed

lemma timestamps_ok_delete:
  assumes "timestamps_ok t s"
  shows "timestamps_ok t (snd (deleteEntry i s))"
  using assms deleteEntry_rows [of _ i s] by (auto simp: timestamps_ok_def)

lemma timestamps_ok_run:
  "timestamps_ok t s \<Longrightarrow> sorted (t # clock_readings ops) \<Longrightarrow> \<exists>t'. timestamps_ok t' (run ops s)"
proof (induction ops arbitrary: s t)
  case Nil
  then show ?case by auto
next
  case (Cons operation rest)
  show ?case
  proof (cases operation)
    case (Create today now uuid input)
    with Cons.prems have "t \<le> now" and "sorted (now # clock_readings rest)" by auto
    with Cons.prems(1) Cons.IH [of now "snd (createEntry today now uuid input s)"] Create
    show ?thesis by (auto dest: timestamps_ok_create)
  next
    case (Update today now i updates)
    with Cons.prems have "t \<le> now" and "sorted (now # clock_readings rest)" by auto
    with Cons.prems(1) Cons.IH [of now "snd (updateEntry today now i updates s)"] Update
    show ?thesis by (auto dest: timestamps_ok_update)
  next
    case (Delete i)
    with Cons.prems have "sorted (t # clock_readings rest)" by auto
    with Cons.prems(1) Cons.IH [of t "snd (deleteEntry i s)"] Delete
    show ?thesis by (auto dest: timestamps_ok_delete)
  qed
qed

text \<open>
  Claim C4, with the condition it rests on. From a store whose records all have
  \<open>created_at \<le> updated_at\<close> and were created no later than \<open>t\<close> (the empty store is one),
  every record has \<open>created_at \<le> updated_at\<close> after any sequence of create, update and
  delete operations, provided the readings of the clock, starting at \<open>t\<close>, never decrease.
  Create writes one reading into both fields; update writes the current reading into
  \<open>updated_at\<close> and does not compare it with \<open>created_at\<close>.
\<close>

theorem timestamps_ordered:
  assumes "\<forall>e\<in>set (rows s). created_at e \<le> updated_at e \<and> created_at e \<le> t"
    and "sorted (t # clock_readings ops)"
  shows "\<forall>e\<in>set (rows (run ops s)). created_at e \<le> updated_at e"
proof -
  have "timestamps_ok t s" using assms(1) by (simp add: timestamps_ok_def)
  from timestamps_ok_run [OF this assms(2)] show ?thesis
    by (auto simp: timestamps_ok_def)
qed

lemma run_sample:
  "rows (run [Create (2024, 6, 10) 10 ''u1''
                 \<lparr>c_entry_date = ''2024-06-01'', c_gratitude_text = '' rain '', c_rating = 4\<rparr>,
              Update (2024, 6, 10) 20 ''u1'' \<lparr>u_gratitude_text = None, u_rating = Some 2\<rparr>,
              Delete ''u9'']
        (sample_db []))
   = [\<lparr>entry_id = ''u1'', entry_date = ''2024-06-01'', gratitude_text = ''rain'', rating = 2,
       created_at = 10, updated_at = 20, synced_at = None, deleted = None\<rparr>]"
  by code_simp

theorem timestamps_ordered_witness:
  "rows (run [Create (2024, 6, 10) 10 ''u1''
                 \<lparr>c_entry_date = ''2024-06-01'', c_gratitude_text = '' rain '', c_rating = 4\<rparr>,
              Update (2024, 6, 10) 20 ''u1'' \<lparr>u_gratitude_text = None, u_rating = Some 2\<rparr>,
              Delete ''u9'']
        (sample_db []))
   = [\<lparr>entry_id = ''u1'', entry_date = ''2024-06-01'', gratitude_text = ''rain'', rating = 2,
       created_at = 10, updated_at = 20, synced_at = None, deleted = None\<rparr>] \<and>
   created_at \<lparr>entry_id = ''u1'', entry_date = ''2024-06-01'', gratitude_text = ''rain'', rating = 2,
       created_at = 10, updated_at = 20, synced_at = None, deleted = None\<rparr>
   \<le> updated_at \<lparr>entry_id = ''u1'', entry_date = ''2024-06-01'', gratitude_text = ''rain'', rating = 2,
       created_at = 10, updated_at = 20, synced_at = None, deleted = None\<rparr>"
proof -
  let ?ops = "[Create (2024, 6, 10) 10 ''u1''
                 \<lparr>c_entry_date = ''2024-06-01'', c_gratitude_text = '' rain '', c_rating = 4\<rparr>,
              Update (2024, 6, 10) 20 ''u1'' \<lparr>u_gratitude_text = None, u_rating = Some 2\<rparr>,
              Delete ''u9'']"
  have a: "\<forall>e\<in>set (rows (sample_db [])). created_at e \<le> updated_at e \<and> created_at e \<le> 0"
    by (simp add: sample_db_def)
  have b: "sorted (0 # clock_readings ?ops)" by simp
  from timestamps_ordered [OF a b]
  have "\<forall>e\<in>set (rows (run ?ops (sample_db []))). created_at e \<le> updated_at e" .
  then show ?thesis unfolding run_sample by simp
qed

theorem clock_set_back_counterexample:
  "rows (run [Create (2024, 6, 10) 10 ''u1''
                 \<lparr>c_entry_date = ''2024-06-01'', c_gratitude_text = '' rain '', c_rating = 4\<rparr>,
              Update (2024, 6, 10) 5 ''u1'' \<lparr>u_gratitude_text = None, u_rating = Some 2\<rparr>]
        (sample_db []))
   = [\<lparr>entry_id = ''u1'', entry_date = ''2024-06-01'', gratitude_text = ''rain'', rating = 2,
       created_at = 10, updated_at = 5, synced_at = None, deleted = None\<rparr>] \<and>
   updated_at \<lparr>entry_id = ''u1'', entry_date = ''2024-06-01'', gratitude_text = ''rain'', rating = 2,
       created_at = 10, updated_at = 5, synced_at = None, deleted = None\<rparr>
   < created_at \<lparr>entry_id = ''u1'', entry_date = ''2024-06-01'', gratitude_text = ''rain'', rating = 2,
       created_at = 10, updated_at = 5, synced_at = None, deleted = None\<rparr>"
  by code_simp

section \<open>The unique keys are kept\<close>

text \<open>
  The two unique keys hold in every store reached from one that has them, by the
  operations of the service and by an import; the properties below and above that assume
  them lose no reachable store.
\<close>

lemma table_add_wf: "wf_store (rows s) \<Longrightarrow> wf_store (rows (snd (table_add e s)))"
  by (auto simp: table_add_def store_call_def wf_store_def list_ex_iff image_iff
      split: list.splits option.splits)

lemma createEntry_wf:
  "wf_store (rows s) \<Longrightarrow> wf_store (rows (snd (createEntry today now uuid input s)))"
  by (auto simp: createEntry_def getEntryByDate_def table_first_by_date_def table_add_def
      store_call_def Let_def wf_store_def list_ex_iff image_iff
      split: list.splits option.splits)

lemma entry_id_apply_changes: "entry_id (apply_changes x c) = entry_id c"
  and entry_date_apply_changes: "entry_date (apply_changes x c) = entry_date c"
  by (simp_all add: apply_changes_def)

lemma find_Some_holds: "find P xs = Some y \<Longrightarrow> P y"
  by (induction xs) (auto split: if_splits)

lemma table_update_existing_wf:
  assumes "wf_store es" and "find (\<lambda>x. entry_id x = i) es = Some existing"
    and "entry_id c = entry_id existing" and "entry_date c = entry_date existing"
  shows "wf_store (map (\<lambda>x. if entry_id x = i then apply_changes x c else x) es)"
proof -
  have m: "existing \<in> set es" and id: "entry_id existing = i"
    using assms(2) by (auto dest: find_Some_mem find_Some_holds)
  have same: "\<And>x. x \<in> set es \<Longrightarrow> entry_id x = i \<Longrightarrow> x = existing"
    using assms(1) m id by (auto simp: wf_store_def distinct_map inj_on_def)
  have a: "map entry_id (map (\<lambda>x. if entry_id x = i then apply_changes x c else x) es) = map entry_id es"
    using assms(3) id by (auto simp: entry_id_apply_changes)
  have b: "map entry_date (map (\<lambda>x. if entry_id x = i then apply_changes x c else x) es)
      = map entry_date es"
    using assms(4) same by (auto simp: entry_date_apply_changes)
  show ?thesis
    unfolding wf_store_def a b using assms(1) unfolding wf_store_def .
qed

lemma updateEntry_wf:
  assumes "wf_store (rows s)"
  shows "wf_store (rows (snd (updateEntry today now i updates s)))"
proof (cases "find (\<lambda>x. entry_id x = i) (rows s)")
  case None
  with assms show ?thesis
    by (auto simp: updateEntry_def getEntryById_def table_get_def store_call_def Let_def
        split: list.splits option.splits)
next
  case (Some existing)
  let ?c = "existing\<lparr>rating := (case u_rating updates of None \<Rightarrow> rating existing | Some r \<Rightarrow> r),
              gratitude_text := (case u_gratitude_text updates of
                                   None \<Rightarrow> gratitude_text existing | Some t \<Rightarrow> trim t),
              updated_at := now\<rparr>"
  have "wf_store (map (\<lambda>x. if entry_id x = i then apply_changes x ?c else x) (rows s))"
    using table_update_existing_wf [OF assms Some, of ?c] by simp
  with assms Some show ?thesis
    by (auto simp: updateEntry_def getEntryById_def table_get_def table_update_def
        store_call_def Let_def split: list.splits option.splits)
qed

lemma deleteEntry_wf:
  "wf_store (rows s) \<Longrightarrow> wf_store (rows (snd (deleteEntry i s)))"
  by (auto simp: deleteEntry_def getEntryById_def table_get_def table_delete_def
      store_call_def wf_store_def distinct_map_filter split: list.splits option.splits)

lemma wf_store_run: "wf_store (rows s) \<Longrightarrow> wf_store (rows (run ops s))"
proof (induction ops arbitrary: s)
  case Nil
  then show ?case by simp
next
  case (Cons operation rest)
  then show ?case
    by (cases operation) (auto intro: createEntry_wf updateEntry_wf deleteEntry_wf)
qed

lemma import_loop_wf: "wf_store (rows s) \<Longrightarrow> wf_store (rows (snd (import_loop es n s)))"
proof (induction es arbitrary: n s)
  case Nil
  then show ?case by simp
next
  case (Cons e es)
  from table_add_wf [OF Cons.prems, of e] Cons.IH show ?case
    by (cases "table_add e s") (auto split: sum.splits)
qed

section \<open>Export and import\<close>












end
